theory Spec2Isabelle
  imports Complex_Main "HOL-Library.AList" "HOL-Library.List_Lexorder" "HOL-Library.Char_ord"
begin

section \<open>Text as Python sees it\<close>

text \<open>
  A Python \<open>str\<close> is modelled as a \<open>string\<close>: a list of 8-bit characters, read as the
  Unicode code points U+0000 .. U+00FF. Code points below 128 are ASCII; the others are the
  Latin-1 supplement, classified as Python's Unicode database classifies them
  (\<open>str.isalpha\<close>, \<open>str.lower\<close>, and the classes \<open>\w\<close>, \<open>\d\<close>, \<open>\s\<close> of \<open>re\<close> on
  \<open>str\<close> patterns). Code points above U+00FF are outside the model.
\<close>

definition ascii_lowercase :: string where
  "ascii_lowercase = ''abcdefghijklmnopqrstuvwxyz''"

definition ascii_uppercase :: string where
  "ascii_uppercase = ''ABCDEFGHIJKLMNOPQRSTUVWXYZ''"

definition digits :: string where
  "digits = ''0123456789''"

text \<open>\<open>string.punctuation\<close>: the 32 ASCII punctuation characters.\<close>

definition punctuation :: string where
  "punctuation =
     [CHR 0x21, CHR 0x22, CHR 0x23, CHR 0x24, CHR 0x25, CHR 0x26, CHR 0x27, CHR 0x28,
      CHR 0x29, CHR 0x2A, CHR 0x2B, CHR 0x2C, CHR 0x2D, CHR 0x2E, CHR 0x2F,
      CHR 0x3A, CHR 0x3B, CHR 0x3C, CHR 0x3D, CHR 0x3E, CHR 0x3F, CHR 0x40,
      CHR 0x5B, CHR 0x5C, CHR 0x5D, CHR 0x5E, CHR 0x5F, CHR 0x60,
      CHR 0x7B, CHR 0x7C, CHR 0x7D, CHR 0x7E]"

text \<open>The cased letters of the Latin-1 supplement, upper case and its lower case in step.\<close>

definition latin1_upper :: string where
  "latin1_upper =
     [CHR 0xC0, CHR 0xC1, CHR 0xC2, CHR 0xC3, CHR 0xC4, CHR 0xC5, CHR 0xC6, CHR 0xC7,
      CHR 0xC8, CHR 0xC9, CHR 0xCA, CHR 0xCB, CHR 0xCC, CHR 0xCD, CHR 0xCE, CHR 0xCF,
      CHR 0xD0, CHR 0xD1, CHR 0xD2, CHR 0xD3, CHR 0xD4, CHR 0xD5, CHR 0xD6,
      CHR 0xD8, CHR 0xD9, CHR 0xDA, CHR 0xDB, CHR 0xDC, CHR 0xDD, CHR 0xDE]"

definition latin1_lower :: string where
  "latin1_lower =
     [CHR 0xE0, CHR 0xE1, CHR 0xE2, CHR 0xE3, CHR 0xE4, CHR 0xE5, CHR 0xE6, CHR 0xE7,
      CHR 0xE8, CHR 0xE9, CHR 0xEA, CHR 0xEB, CHR 0xEC, CHR 0xED, CHR 0xEE, CHR 0xEF,
      CHR 0xF0, CHR 0xF1, CHR 0xF2, CHR 0xF3, CHR 0xF4, CHR 0xF5, CHR 0xF6,
      CHR 0xF8, CHR 0xF9, CHR 0xFA, CHR 0xFB, CHR 0xFC, CHR 0xFD, CHR 0xFE]"

text \<open>Letters without a case pair in the range: the ordinal indicators, the micro sign,
  sharp s and y with diaeresis.\<close>

definition latin1_other_alpha :: string where
  "latin1_other_alpha = [CHR 0xAA, CHR 0xB5, CHR 0xBA, CHR 0xDF, CHR 0xFF]"

text \<open>Superscript digits and vulgar fractions: numeric, so word characters, but neither
  alphabetic nor decimal digits.\<close>

definition latin1_numeric :: string where
  "latin1_numeric = [CHR 0xB2, CHR 0xB3, CHR 0xB9, CHR 0xBC, CHR 0xBD, CHR 0xBE]"

definition is_alpha :: "char \<Rightarrow> bool" where
  "is_alpha c \<longleftrightarrow>
     c \<in> set (ascii_lowercase @ ascii_uppercase @ latin1_upper @ latin1_lower @ latin1_other_alpha)"

text \<open>The class \<open>\d\<close>: decimal digits.\<close>

definition is_digit :: "char \<Rightarrow> bool" where
  "is_digit c \<longleftrightarrow> c \<in> set digits"

text \<open>The class \<open>\w\<close>: alphanumeric characters and the underscore.\<close>

definition is_word :: "char \<Rightarrow> bool" where
  "is_word c \<longleftrightarrow> is_alpha c \<or> is_digit c \<or> c \<in> set latin1_numeric \<or> c = CHR 0x5F"

text \<open>The class \<open>\s\<close>: white space.\<close>

definition is_space :: "char \<Rightarrow> bool" where
  "is_space c \<longleftrightarrow>
     c \<in> set [CHR 0x09, CHR 0x0A, CHR 0x0B, CHR 0x0C, CHR 0x0D, CHR 0x1C, CHR 0x1D,
                CHR 0x1E, CHR 0x1F, CHR 0x20, CHR 0x85, CHR 0xA0]"

text \<open>The class \<open>[\x00-\x7F]\<close>.\<close>

definition is_ascii :: "char \<Rightarrow> bool" where
  "is_ascii c \<longleftrightarrow> (of_char c :: nat) < 128"

definition lower_char :: "char \<Rightarrow> char" where
  "lower_char c =
     (case map_of (zip (ascii_uppercase @ latin1_upper) (ascii_lowercase @ latin1_lower)) c of
        Some d \<Rightarrow> d
      | None \<Rightarrow> c)"

text \<open>\<open>str.lower\<close>.\<close>

definition lower :: "string \<Rightarrow> string" where
  "lower s = map lower_char s"

text \<open>\<open>str.isalpha\<close>: every character alphabetic, and at least one character.\<close>

definition isalpha :: "string \<Rightarrow> bool" where
  "isalpha w \<longleftrightarrow> w \<noteq> [] \<and> list_all is_alpha w"

text \<open>\<open>str.translate(str.maketrans('', '', string.punctuation))\<close>.\<close>

definition remove_punctuation :: "string \<Rightarrow> string" where
  "remove_punctuation s = filter (\<lambda>c. c \<notin> set punctuation) s"

subsection \<open>Regular expressions used by the cleaner\<close>

text \<open>A pattern is modelled by its matcher anchored at the start of the text: the
  remainder after the match, or \<open>None\<close>.\<close>

fun strip_prefix :: "string \<Rightarrow> string \<Rightarrow> string option" where
  "strip_prefix [] s = Some s"
| "strip_prefix (p # ps) [] = None"
| "strip_prefix (p # ps) (c # cs) = (if p = c then strip_prefix ps cs else None)"

definition orelse :: "'a option \<Rightarrow> 'a option \<Rightarrow> 'a option" where
  "orelse a b = (case a of Some x \<Rightarrow> Some x | None \<Rightarrow> b)"

text \<open>\<open>\S+\<close> at the end of a pattern: at least one character that is not white space,
  then as many as there are.\<close>

definition nonspace_run :: "string \<Rightarrow> string option" where
  "nonspace_run s =
     (case s of
        [] \<Rightarrow> None
      | c # cs \<Rightarrow> if is_space c then None else Some (dropWhile (\<lambda>d. \<not> is_space d) cs))"

text \<open>\<open>https?://\S+|www\.\S+\<close>.\<close>

definition match_url :: "string \<Rightarrow> string option" where
  "match_url s =
     orelse
       (Option.bind (strip_prefix ''http'' s) (\<lambda>r.
          orelse
            (Option.bind (strip_prefix ''s'' r) (\<lambda>r1.
               Option.bind (strip_prefix ''://'' r1) nonspace_run))
            (Option.bind (strip_prefix ''://'' r) nonspace_run)))
       (Option.bind (strip_prefix ''www.'' s) nonspace_run)"

text \<open>\<open>[@#]\w+\<close>.\<close>

definition match_tag :: "string \<Rightarrow> string option" where
  "match_tag s =
     (case s of
        c # d # r \<Rightarrow>
          if (c = CHR 0x40 \<or> c = CHR 0x23) \<and> is_word d then Some (dropWhile is_word r) else None
      | _ \<Rightarrow> None)"

text \<open>\<open>re.sub(pattern, '', text)\<close>: the leftmost match is removed and the scan goes on
  behind it; where the pattern does not match (or matches nothing) the character is kept.\<close>

fun re_sub_empty :: "(string \<Rightarrow> string option) \<Rightarrow> string \<Rightarrow> string" where
  "re_sub_empty m [] = []"
| "re_sub_empty m (c # cs) =
     (case m (c # cs) of
        Some rest \<Rightarrow> if length rest \<le> length cs then re_sub_empty m rest else c # re_sub_empty m cs
      | None \<Rightarrow> c # re_sub_empty m cs)"

subsection \<open>nltk's WhitespaceTokenizer\<close>

text \<open>The text is split at runs of white space and empty pieces are discarded.
  \<open>split_ws cur s\<close> carries the token being read.\<close>

fun split_ws :: "string \<Rightarrow> string \<Rightarrow> string list" where
  "split_ws cur [] = (if cur = [] then [] else [cur])"
| "split_ws cur (c # cs) =
     (if is_space c then (if cur = [] then split_ws [] cs else cur # split_ws [] cs)
      else split_ws (cur @ [c]) cs)"

definition tokenize :: "string \<Rightarrow> string list" where
  "tokenize s = split_ws [] s"

text \<open>\<open>" ".join(tokens)\<close>.\<close>

fun join_space :: "string list \<Rightarrow> string" where
  "join_space [] = []"
| "join_space [w] = w"
| "join_space (w # v # ws) = w @ '' '' @ join_space (v # ws)"

section \<open>Data\_Cleaner.py\<close>

text \<open>
  \<open>DataCleaner.clean_text\<close>. The stop word set and the stemmer come from nltk
  (\<open>stopwords.words('english')\<close>, \<open>PorterStemmer().stem\<close>): they are not code of this
  repository and are parameters here.
\<close>

definition clean_text :: "(string \<Rightarrow> string) \<Rightarrow> string set \<Rightarrow> string \<Rightarrow> string" where
  "clean_text stem stop text =
     (if text = [] then []
      else
        let text1 = lower text;
            text2 = re_sub_empty match_url text1;
            text3 = re_sub_empty match_tag text2;
            text4 = filter (\<lambda>c. \<not> is_digit c) text3;
            text5 = filter is_ascii text4;
            text6 = remove_punctuation text5;
            tokens = tokenize text6;
            cleaned_tokens =
              map stem (filter (\<lambda>word. word \<notin> stop \<and> isalpha word \<and> length word > 2) tokens)
        in join_space cleaned_tokens)"

section \<open>Inverted\_Index.py\<close>

text \<open>A row of \<open>fetch_all_posts_for_indexing\<close>. \<open>post_id\<close> is the id as \<open>str\<close> renders
  it; \<open>clean_text_col\<close> is \<open>None\<close> for SQL NULL; \<open>post_date_only\<close> holds the date as
  \<open>str\<close> renders it.\<close>

record post =
  post_id :: string
  clean_text_col :: "string option"
  likes_col :: "int option"
  comment_count :: "int option"
  post_date_only :: "string option"

text \<open>A value of the inverted index: \<open>{'df': .., 'tf_total': .., 'post_ids': [..]}\<close>.\<close>

record index_entry =
  df :: nat
  tf_total :: nat
  post_ids :: "string list"

record post_meta =
  max_tf_term :: string
  max_tf :: nat
  length_tokens :: nat
  likes :: "int option"
  comments :: "int option"
  date :: "string option"

text \<open>Python dictionaries keep insertion order; they are association lists with distinct
  keys, read with \<open>map_of\<close> and written with \<open>AList.update\<close> (a present key keeps its
  place, a new key goes to the end).\<close>

type_synonym freq_table = "(string \<times> nat) list"
type_synonym inverted_index_t = "(string \<times> index_entry) list"
type_synonym post_metadata_t = "(string \<times> post_meta) list"

text \<open>The files the builder writes and the engine reads: \<open>data_store/inverted_index.json\<close>,
  \<open>data_store/post_metadata.json\<close>, and \<open>data_store/json_posts/post_<id>.json\<close> by id.\<close>

record store =
  index_file :: "inverted_index_t option"
  metadata_file :: "post_metadata_t option"
  json_posts :: "string \<rightharpoonup> freq_table"

definition tokenize_text :: "string option \<Rightarrow> string list" where
  "tokenize_text text =
     (case text of None \<Rightarrow> [] | Some t \<Rightarrow> if t = [] then [] else tokenize t)"

text \<open>\<open>Counter(tokens)\<close>: the count of each token, keys in order of first occurrence.\<close>

definition count_token :: "string \<Rightarrow> freq_table \<Rightarrow> freq_table" where
  "count_token t c = AList.update t (Suc (case map_of c t of None \<Rightarrow> 0 | Some n \<Rightarrow> n)) c"

definition Counter :: "string list \<Rightarrow> freq_table" where
  "Counter tokens = fold count_token tokens []"

text \<open>\<open>max(freq, key=freq.get)\<close>: the first key, in iteration order, whose count is
  largest. The builder calls it on a table that is not empty.\<close>

fun max_key :: "string \<times> nat \<Rightarrow> freq_table \<Rightarrow> string \<times> nat" where
  "max_key best [] = best"
| "max_key best (x # xs) = max_key (if snd best < snd x then x else best) xs"

definition empty_entry :: index_entry where
  "empty_entry = \<lparr>df = 0, tf_total = 0, post_ids = []\<rparr>"

text \<open>The body of \<open>for term, tf in freq.items()\<close>; \<open>inverted_index\<close> is a
  \<open>defaultdict\<close>, so a missing term starts from the empty entry.\<close>

definition accumulate :: "string \<Rightarrow> string \<times> nat \<Rightarrow> inverted_index_t \<Rightarrow> inverted_index_t" where
  "accumulate pid item idx =
     (let term = fst item; tf = snd item;
          e0 = (case map_of idx term of None \<Rightarrow> empty_entry | Some e \<Rightarrow> e);
          e1 = e0\<lparr>tf_total := tf_total e0 + tf\<rparr>;
          e2 = (if pid \<notin> set (post_ids e1)
                then e1\<lparr>df := df e1 + 1, post_ids := post_ids e1 @ [pid]\<rparr>
                else e1)
      in AList.update term e2 idx)"

text \<open>The body of \<open>for idx, post in enumerate(posts)\<close>, on the three things it writes:
  the index, the metadata and the per-post files.\<close>

definition process_post ::
  "post \<Rightarrow> inverted_index_t \<times> post_metadata_t \<times> (string \<rightharpoonup> freq_table)
        \<Rightarrow> inverted_index_t \<times> post_metadata_t \<times> (string \<rightharpoonup> freq_table)" where
  "process_post p state =
     (case state of (idx, meta, files) \<Rightarrow>
        let pid = post_id p;
            tokens = tokenize_text (clean_text_col p)
        in if tokens = [] then (idx, meta, files)
           else
             let freq = Counter tokens;
                 len = sum_list (map snd freq);
                 best = max_key (hd freq) freq;
                 m = \<lparr>max_tf_term = fst best, max_tf = snd best, length_tokens = len,
                      likes = likes_col p, comments = comment_count p, date = post_date_only p\<rparr>
             in (fold (accumulate pid) freq idx, AList.update pid m meta, files(pid \<mapsto> freq)))"

text \<open>\<open>InvertedIndexBuilder.build_inverted_index\<close>: with no posts it returns before
  anything is written; otherwise the loop runs and both tables are written.\<close>

definition build_inverted_index :: "post list \<Rightarrow> store \<Rightarrow> store" where
  "build_inverted_index posts st =
     (if posts = [] then st
      else
        case fold process_post posts ([], [], json_posts st) of (idx, meta, files) \<Rightarrow>
          \<lparr>index_file = Some idx, metadata_file = Some meta, json_posts = files\<rparr>)"

section \<open>Ranked\_search.py\<close>

text \<open>What the engine prints, line by line. Python's floats are idealised as reals.\<close>

datatype message =
  FileNotFound string
| NoValidTerm
| SearchingFor string
| TermNotFound string
| JsonMissing string
| TopMatching
| ResultLine string real
| PostInfo string post_meta
| PostNotFound string

datatype py_error = ZeroDivisionError | ValueError

text \<open>The attributes of a \<open>SearchEngine\<close> (\<open>debug\<close> is always \<open>False\<close> and the
  tokenizer is \<open>tokenize\<close>).\<close>

record engine =
  inverted_index :: inverted_index_t
  post_metadata :: post_metadata_t
  stemmer :: "string \<Rightarrow> string"
  stop_words :: "string set"

definition index_path :: string where
  "index_path = ''data_store/inverted_index.json''"

definition metadata_path :: string where
  "metadata_path = ''data_store/post_metadata.json''"

text \<open>\<open>SearchEngine._load_json\<close>: a missing file is reported and read as \<open>{}\<close>.\<close>

definition load_json :: "string \<Rightarrow> ('k \<times> 'v) list option \<Rightarrow> message list \<times> ('k \<times> 'v) list" where
  "load_json path file =
     (case file of None \<Rightarrow> ([FileNotFound path], []) | Some d \<Rightarrow> ([], d))"

text \<open>\<open>SearchEngine.__init__\<close>, with nltk's stemmer and stop words as parameters.\<close>

definition SearchEngine_init :: "(string \<Rightarrow> string) \<Rightarrow> string set \<Rightarrow> store \<Rightarrow> message list \<times> engine" where
  "SearchEngine_init stem stop st =
     (let (out1, idx) = load_json index_path (index_file st);
          (out2, meta) = load_json metadata_path (metadata_file st)
      in (out1 @ out2,
          \<lparr>inverted_index = idx, post_metadata = meta, stemmer = stem, stop_words = stop\<rparr>))"

text \<open>\<open>SearchEngine.preprocess_query\<close>.\<close>

definition preprocess_query :: "(string \<Rightarrow> string) \<Rightarrow> string set \<Rightarrow> string \<Rightarrow> string list" where
  "preprocess_query stem stop Query =
     (let Query1 = lower Query;
          Query2 = re_sub_empty match_tag Query1;
          Query3 = remove_punctuation Query2;
          tokens = tokenize Query3
      in map stem (filter (\<lambda>word. isalpha word \<and> word \<notin> stop) tokens))"

text \<open>True division and \<open>math.log\<close>, with the exceptions they raise.\<close>

definition py_truediv :: "nat \<Rightarrow> nat \<Rightarrow> py_error + real" where
  "py_truediv a b = (if b = 0 then Inl ZeroDivisionError else Inr (real a / real b))"

definition math_log :: "real \<Rightarrow> py_error + real" where
  "math_log x = (if x \<le> 0 then Inl ValueError else Inr (ln x))"

text \<open>\<open>math.log(1 + total_docs / df) if df else 0\<close>.\<close>

definition idf_of :: "nat \<Rightarrow> nat \<Rightarrow> py_error + real" where
  "idf_of total_docs d =
     (if d \<noteq> 0
      then (case py_truediv total_docs d of Inl err \<Rightarrow> Inl err | Inr q \<Rightarrow> math_log (1 + q))
      else Inr 0)"

text \<open>The body of \<open>for PID in post_list\<close>, on what is printed and on \<open>scores\<close>.\<close>

definition score_post ::
  "store \<Rightarrow> string \<Rightarrow> real \<Rightarrow> string \<Rightarrow> message list \<times> (string \<times> real) list
     \<Rightarrow> message list \<times> (string \<times> real) list" where
  "score_post st term idf PID state =
     (case state of (out, scores) \<Rightarrow>
        (case json_posts st PID of
           Some freqs \<Rightarrow>
             let tf = (case map_of freqs term of None \<Rightarrow> 0 | Some n \<Rightarrow> n);
                 tfidf = real tf * idf
             in (out, AList.update PID ((case map_of scores PID of None \<Rightarrow> 0 | Some s \<Rightarrow> s) + tfidf) scores)
         | None \<Rightarrow> (out @ [JsonMissing PID], scores)))"

text \<open>\<open>sorted(scores.items(), key=lambda x: x[1], reverse=True)\<close>: Python's sort is
  stable, also with \<open>reverse=True\<close>, so items of equal score keep their order.\<close>

definition rank :: "(string \<times> real) list \<Rightarrow> (string \<times> real) list" where
  "rank scores = sort_key (\<lambda>x. - snd x) scores"

text \<open>\<open>SearchEngine.search\<close>: what it prints and the list it returns, or the exception
  that escapes. The per-post files are read when the query runs, from the store as it is
  then.\<close>

definition search :: "engine \<Rightarrow> store \<Rightarrow> string \<Rightarrow> py_error + (message list \<times> string list)" where
  "search eng st Query =
     (case preprocess_query (stemmer eng) (stop_words eng) Query of
        [] \<Rightarrow> Inr ([NoValidTerm], [])
      | term # _ \<Rightarrow>
          (case map_of (inverted_index eng) term of
             None \<Rightarrow> Inr ([SearchingFor term, TermNotFound term], [])
           | Some e \<Rightarrow>
               (case idf_of (length (post_metadata eng)) (df e) of
                  Inl err \<Rightarrow> Inl err
                | Inr idf \<Rightarrow>
                    (case fold (score_post st term idf) (post_ids e) ([SearchingFor term], []) of
                       (out, scores) \<Rightarrow>
                         let ranked = rank scores
                         in Inr (out @ [TopMatching] @ map (\<lambda>(PID, score). ResultLine PID score) (take 20 ranked),
                                 map fst (take 20 ranked))))))"

text \<open>\<open>SearchEngine.show_post_info\<close>: what it prints.\<close>

definition show_post_info :: "engine \<Rightarrow> string \<Rightarrow> message list" where
  "show_post_info eng pid =
     (case map_of (post_metadata eng) pid of
        Some data \<Rightarrow> [PostInfo pid data]
      | None \<Rightarrow> [PostNotFound pid])"

section \<open>Example data\<close>

text \<open>Stand-ins for nltk in the examples: a stemmer that agrees with the Porter stemmer
  on the words used below (it only takes a final \<open>s\<close> off), and a few of the English
  stop words.\<close>

definition example_stem :: "string \<Rightarrow> string" where
  "example_stem w = (if 2 < length w \<and> last w = CHR ''s'' then butlast w else w)"

definition example_stop :: "string set" where
  "example_stop = {''the'', ''and'', ''is'', ''are''}"

text \<open>The corpus of the specification's scenario A, as it reaches the builder (cleaned
  and stemmed), a store holding no file yet, and what the builder makes of the corpus.\<close>

definition scenario_A :: "post list" where
  "scenario_A =
     [\<lparr>post_id = ''1'', clean_text_col = Some ''cat love cat'', likes_col = Some 3,
       comment_count = Some 0, post_date_only = None\<rparr>,
      \<lparr>post_id = ''2'', clean_text_col = Some ''dog love cat'', likes_col = None,
       comment_count = None, post_date_only = None\<rparr>,
      \<lparr>post_id = ''3'', clean_text_col = Some ''bird fli'', likes_col = Some 1,
       comment_count = Some 2, post_date_only = Some ''2024-01-05''\<rparr>]"

definition empty_store :: store where
  "empty_store = \<lparr>index_file = None, metadata_file = None, json_posts = Map.empty\<rparr>"

definition index_A :: inverted_index_t where
  "index_A =
     [(''cat'', \<lparr>df = 2, tf_total = 3, post_ids = [''1'', ''2'']\<rparr>),
      (''love'', \<lparr>df = 2, tf_total = 2, post_ids = [''1'', ''2'']\<rparr>),
      (''dog'', \<lparr>df = 1, tf_total = 1, post_ids = [''2'']\<rparr>),
      (''bird'', \<lparr>df = 1, tf_total = 1, post_ids = [''3'']\<rparr>),
      (''fli'', \<lparr>df = 1, tf_total = 1, post_ids = [''3'']\<rparr>)]"

definition meta_A :: post_metadata_t where
  "meta_A =
     [(''1'', \<lparr>max_tf_term = ''cat'', max_tf = 2, length_tokens = 3, likes = Some 3,
              comments = Some 0, date = None\<rparr>),
      (''2'', \<lparr>max_tf_term = ''dog'', max_tf = 1, length_tokens = 3, likes = None,
              comments = None, date = None\<rparr>),
      (''3'', \<lparr>max_tf_term = ''bird'', max_tf = 1, length_tokens = 2, likes = Some 1,
              comments = Some 2, date = Some ''2024-01-05''\<rparr>)]"

definition files_A :: "string \<rightharpoonup> freq_table" where
  "files_A = [''1'' \<mapsto> [(''cat'', 2), (''love'', 1)],
              ''2'' \<mapsto> [(''dog'', 1), (''love'', 1), (''cat'', 1)],
              ''3'' \<mapsto> [(''bird'', 1), (''fli'', 1)]]"

definition store_A :: store where
  "store_A = \<lparr>index_file = Some index_A, metadata_file = Some meta_A, json_posts = files_A\<rparr>"

definition engine_A :: engine where
  "engine_A = \<lparr>inverted_index = index_A, post_metadata = meta_A, stemmer = example_stem,
      stop_words = example_stop\<rparr>"

text \<open>One document, to be processed twice; two documents with the same text, the higher
  id first; a document without tokens beside one with.\<close>

definition doc_cat :: post where
  "doc_cat = \<lparr>post_id = ''1'', clean_text_col = Some ''cat'', likes_col = None,
       comment_count = None, post_date_only = None\<rparr>"

definition tie_posts :: "post list" where
  "tie_posts =
     [\<lparr>post_id = ''2'', clean_text_col = Some ''cat'', likes_col = None,
       comment_count = None, post_date_only = None\<rparr>,
      \<lparr>post_id = ''1'', clean_text_col = Some ''cat'', likes_col = None,
       comment_count = None, post_date_only = None\<rparr>]"

definition doc_empty :: post where
  "doc_empty = \<lparr>post_id = ''4'', clean_text_col = Some '' '', likes_col = Some 7,
       comment_count = None, post_date_only = None\<rparr>"

text \<open>The specification's scenario D: 25 documents, document \<open>100 + k\<close> holding the term \<open>k\<close>
  times, and what the builder makes of them.\<close>

definition posts_D :: "post list" where
  "posts_D =
     [\<lparr>post_id = ''101'', clean_text_col = Some ''cat'', likes_col = None,
        comment_count = None, post_date_only = None\<rparr>,
      \<lparr>post_id = ''102'', clean_text_col = Some ''cat cat'', likes_col = None,
        comment_count = None, post_date_only = None\<rparr>,
      \<lparr>post_id = ''103'', clean_text_col = Some ''cat cat cat'', likes_col = None,
        comment_count = None, post_date_only = None\<rparr>,
      \<lparr>post_id = ''104'', clean_text_col = Some ''cat cat cat cat'', likes_col = None,
        comment_count = None, post_date_only = None\<rparr>,
      \<lparr>post_id = ''105'', clean_text_col = Some ''cat cat cat cat cat'', likes_col = None,
        comment_count = None, post_date_only = None\<rparr>,
      \<lparr>post_id = ''106'', clean_text_col = Some ''cat cat cat cat cat cat'', likes_col = None,
        comment_count = None, post_date_only = None\<rparr>,
      \<lparr>post_id = ''107'', clean_text_col = Some ''cat cat cat cat cat cat cat'', likes_col = None,
        comment_count = None, post_date_only = None\<rparr>,
      \<lparr>post_id = ''108'', clean_text_col = Some ''cat cat cat cat cat cat cat cat'', likes_col = None,
        comment_count = None, post_date_only = None\<rparr>,
      \<lparr>post_id = ''109'', clean_text_col = Some ''cat cat cat cat cat cat cat cat cat'', likes_col = None,
        comment_count = None, post_date_only = None\<rparr>,
      \<lparr>post_id = ''110'', clean_text_col = Some ''cat cat cat cat cat cat cat cat cat cat'', likes_col = None,
        comment_count = None, post_date_only = None\<rparr>,
      \<lparr>post_id = ''111'', clean_text_col = Some ''cat cat cat cat cat cat cat cat cat cat cat'', likes_col = None,
        comment_count = None, post_date_only = None\<rparr>,
      \<lparr>post_id = ''112'', clean_text_col = Some ''cat cat cat cat cat cat cat cat cat cat cat cat'', likes_col = None,
        comment_count = None, post_date_only = None\<rparr>,
      \<lparr>post_id = ''113'', clean_text_col = Some ''cat cat cat cat cat cat cat cat cat cat cat cat cat'', likes_col = None,
        comment_count = None, post_date_only = None\<rparr>,
      \<lparr>post_id = ''114'', clean_text_col = Some ''cat cat cat cat cat cat cat cat cat cat cat cat cat cat'', likes_col = None,
        comment_count = None, post_date_only = None\<rparr>,
      \<lparr>post_id = ''115'', clean_text_col = Some ''cat cat cat cat cat cat cat cat cat cat cat cat cat cat cat'', likes_col = None,
        comment_count = None, post_date_only = None\<rparr>,
      \<lparr>post_id = ''116'', clean_text_col = Some ''cat cat cat cat cat cat cat cat cat cat cat cat cat cat cat cat'', likes_col = None,
        comment_count = None, post_date_only = None\<rparr>,
      \<lparr>post_id = ''117'', clean_text_col = Some ''cat cat cat cat cat cat cat cat cat cat cat cat cat cat cat cat cat'', likes_col = None,
        comment_count = None, post_date_only = None\<rparr>,
      \<lparr>post_id = ''118'', clean_text_col = Some ''cat cat cat cat cat cat cat cat cat cat cat cat cat cat cat cat cat cat'', likes_col = None,
        comment_count = None, post_date_only = None\<rparr>,
      \<lparr>post_id = ''119'', clean_text_col = Some ''cat cat cat cat cat cat cat cat cat cat cat cat cat cat cat cat cat cat cat'', likes_col = None,
        comment_count = None, post_date_only = None\<rparr>,
      \<lparr>post_id = ''120'', clean_text_col = Some ''cat cat cat cat cat cat cat cat cat cat cat cat cat cat cat cat cat cat cat cat'', likes_col = None,
        comment_count = None, post_date_only = None\<rparr>,
      \<lparr>post_id = ''121'', clean_text_col = Some ''cat cat cat cat cat cat cat cat cat cat cat cat cat cat cat cat cat cat cat cat cat'', likes_col = None,
        comment_count = None, post_date_only = None\<rparr>,
      \<lparr>post_id = ''122'', clean_text_col = Some ''cat cat cat cat cat cat cat cat cat cat cat cat cat cat cat cat cat cat cat cat cat cat'', likes_col = None,
        comment_count = None, post_date_only = None\<rparr>,
      \<lparr>post_id = ''123'', clean_text_col = Some ''cat cat cat cat cat cat cat cat cat cat cat cat cat cat cat cat cat cat cat cat cat cat cat'', likes_col = None,
        comment_count = None, post_date_only = None\<rparr>,
      \<lparr>post_id = ''124'', clean_text_col = Some ''cat cat cat cat cat cat cat cat cat cat cat cat cat cat cat cat cat cat cat cat cat cat cat cat'', likes_col = None,
        comment_count = None, post_date_only = None\<rparr>,
      \<lparr>post_id = ''125'', clean_text_col = Some ''cat cat cat cat cat cat cat cat cat cat cat cat cat cat cat cat cat cat cat cat cat cat cat cat cat'', likes_col = None,
        comment_count = None, post_date_only = None\<rparr>]"

definition postings_D :: "string list" where
  "postings_D = [''101'', ''102'', ''103'', ''104'', ''105'', ''106'', ''107'', ''108'', ''109'', ''110'', ''111'', ''112'', ''113'', ''114'', ''115'', ''116'', ''117'', ''118'', ''119'', ''120'', ''121'', ''122'', ''123'', ''124'', ''125'']"

definition files_D :: "string \<rightharpoonup> freq_table" where
  "files_D =
     [''101'' \<mapsto> [(''cat'', 1)],
      ''102'' \<mapsto> [(''cat'', 2)],
      ''103'' \<mapsto> [(''cat'', 3)],
      ''104'' \<mapsto> [(''cat'', 4)],
      ''105'' \<mapsto> [(''cat'', 5)],
      ''106'' \<mapsto> [(''cat'', 6)],
      ''107'' \<mapsto> [(''cat'', 7)],
      ''108'' \<mapsto> [(''cat'', 8)],
      ''109'' \<mapsto> [(''cat'', 9)],
      ''110'' \<mapsto> [(''cat'', 10)],
      ''111'' \<mapsto> [(''cat'', 11)],
      ''112'' \<mapsto> [(''cat'', 12)],
      ''113'' \<mapsto> [(''cat'', 13)],
      ''114'' \<mapsto> [(''cat'', 14)],
      ''115'' \<mapsto> [(''cat'', 15)],
      ''116'' \<mapsto> [(''cat'', 16)],
      ''117'' \<mapsto> [(''cat'', 17)],
      ''118'' \<mapsto> [(''cat'', 18)],
      ''119'' \<mapsto> [(''cat'', 19)],
      ''120'' \<mapsto> [(''cat'', 20)],
      ''121'' \<mapsto> [(''cat'', 21)],
      ''122'' \<mapsto> [(''cat'', 22)],
      ''123'' \<mapsto> [(''cat'', 23)],
      ''124'' \<mapsto> [(''cat'', 24)],
      ''125'' \<mapsto> [(''cat'', 25)]]"

definition meta_D :: post_metadata_t where
  "meta_D = map (\<lambda>(pid, n). (pid, \<lparr>max_tf_term = ''cat'', max_tf = n, length_tokens = n,
       likes = None, comments = None, date = None\<rparr>))
     [(''101'', 1),
      (''102'', 2),
      (''103'', 3),
      (''104'', 4),
      (''105'', 5),
      (''106'', 6),
      (''107'', 7),
      (''108'', 8),
      (''109'', 9),
      (''110'', 10),
      (''111'', 11),
      (''112'', 12),
      (''113'', 13),
      (''114'', 14),
      (''115'', 15),
      (''116'', 16),
      (''117'', 17),
      (''118'', 18),
      (''119'', 19),
      (''120'', 20),
      (''121'', 21),
      (''122'', 22),
      (''123'', 23),
      (''124'', 24),
      (''125'', 25)]"

definition store_D :: store where
  "store_D = \<lparr>index_file = Some [(''cat'', \<lparr>df = 25, tf_total = 325, post_ids = postings_D\<rparr>)],
      metadata_file = Some meta_D, json_posts = files_D\<rparr>"

definition engine_D :: engine where
  "engine_D = \<lparr>inverted_index = [(''cat'', \<lparr>df = 25, tf_total = 325, post_ids = postings_D\<rparr>)],
      post_metadata = meta_D, stemmer = example_stem, stop_words = example_stop\<rparr>"

text \<open>The store of scenario A after its metadata file has been removed.\<close>

definition store_A_no_metadata :: store where
  "store_A_no_metadata = \<lparr>index_file = Some index_A, metadata_file = None, json_posts = files_A\<rparr>"

section \<open>Notions used in the statements\<close>

text \<open>What the engine reads from a per-post file: \<open>freqs.get(term, 0)\<close>, and 0 when
  the file is not there.\<close>

definition artifact_tf :: "store \<Rightarrow> string \<Rightarrow> string \<Rightarrow> nat" where
  "artifact_tf st pid term =
     (case json_posts st pid of
        None \<Rightarrow> 0
      | Some freqs \<Rightarrow> (case map_of freqs term of None \<Rightarrow> 0 | Some n \<Rightarrow> n))"

text \<open>A store in which an absent table has been replaced by the empty table.\<close>

definition absent_as_empty :: "store \<Rightarrow> store" where
  "absent_as_empty st =
     st\<lparr>index_file := Some (case index_file st of None \<Rightarrow> [] | Some idx \<Rightarrow> idx),
        metadata_file := Some (case metadata_file st of None \<Rightarrow> [] | Some meta \<Rightarrow> meta)\<rparr>"

text \<open>The ids of the posts that have a token.\<close>

definition token_ids :: "post list \<Rightarrow> string set" where
  "token_ids posts = post_id ` {p \<in> set posts. tokenize_text (clean_text_col p) \<noteq> []}"

text \<open>The frequency of a term in a per-post file, on the files alone, and the round trip
  of \<open>tf_total\<close> through the files of the postings list.\<close>

definition file_tf :: "(string \<rightharpoonup> freq_table) \<Rightarrow> string \<Rightarrow> string \<Rightarrow> nat" where
  "file_tf files pid t =
     (case files pid of
        None \<Rightarrow> 0
      | Some freqs \<Rightarrow> (case map_of freqs t of None \<Rightarrow> 0 | Some n \<Rightarrow> n))"

definition round_trip :: "(string \<rightharpoonup> freq_table) \<Rightarrow> inverted_index_t \<Rightarrow> bool" where
  "round_trip files idx \<longleftrightarrow>
     (\<forall>t e. map_of idx t = Some e \<longrightarrow>
        tf_total e = sum_list (map (\<lambda>pid. file_tf files pid t) (post_ids e)))"

text \<open>The documents of a postings list that match at query time: those whose per-post file
  is there (the others are skipped with a warning).\<close>

definition matching :: "store \<Rightarrow> index_entry \<Rightarrow> string list" where
  "matching st e = filter (\<lambda>pid. json_posts st pid \<noteq> None) (post_ids e)"

definition entry_ok :: "index_entry \<Rightarrow> bool" where
  "entry_ok e \<longleftrightarrow> df e = length (post_ids e) \<and> distinct (post_ids e) \<and> post_ids e \<noteq> []"

definition ids_within :: "string set \<Rightarrow> index_entry \<Rightarrow> bool" where
  "ids_within S e \<longleftrightarrow> set (post_ids e) \<subseteq> S"

definition all_entries :: "(index_entry \<Rightarrow> bool) \<Rightarrow> inverted_index_t \<Rightarrow> bool" where
  "all_entries P idx \<longleftrightarrow> (\<forall>t e. map_of idx t = Some e \<longrightarrow> P e)"

definition tables_within ::
  "string set \<Rightarrow> inverted_index_t \<times> post_metadata_t \<times> (string \<rightharpoonup> freq_table) \<Rightarrow> bool" where
  "tables_within S state \<longleftrightarrow>
     (case state of (idx, meta, files) \<Rightarrow>
        all_entries (ids_within S) idx \<and> fst ` set meta \<subseteq> S)"

definition files_cover ::
  "inverted_index_t \<times> post_metadata_t \<times> (string \<rightharpoonup> freq_table) \<Rightarrow> bool" where
  "files_cover state \<longleftrightarrow>
     (case state of (idx, meta, files) \<Rightarrow> all_entries (ids_within (dom files)) idx)"

section \<open>The builder's bookkeeping\<close>

text \<open>\<open>max\<close> is never called on an empty table: a post with a token has a count.\<close>

lemma update_not_Nil: "AList.update k v al \<noteq> []"
  by (cases al) auto

lemma fold_count_token_not_Nil: "c \<noteq> [] \<or> tokens \<noteq> [] \<Longrightarrow> fold count_token tokens c \<noteq> []"
  by (induction tokens arbitrary: c) (auto simp: count_token_def update_not_Nil)

lemma Counter_not_Nil: "tokens \<noteq> [] \<Longrightarrow> Counter tokens \<noteq> []"
  by (simp add: Counter_def fold_count_token_not_Nil)

lemma all_entries_Nil: "all_entries P []"
  by (simp add: all_entries_def)

lemma all_entries_mono:
  "all_entries (ids_within S) idx \<Longrightarrow> S \<subseteq> T \<Longrightarrow> all_entries (ids_within T) idx"
  by (auto simp: all_entries_def ids_within_def)

lemma accumulate_entry_ok:
  assumes "all_entries entry_ok idx"
  shows "all_entries entry_ok (accumulate pid item idx)"
  using assms
  unfolding all_entries_def accumulate_def Let_def
  by (auto simp: update_conv' entry_ok_def empty_entry_def split: option.splits if_splits)

lemma fold_accumulate_entry_ok:
  "all_entries entry_ok idx \<Longrightarrow> all_entries entry_ok (fold (accumulate pid) items idx)"
  by (induction items arbitrary: idx) (simp_all add: accumulate_entry_ok)

lemma process_post_entry_ok:
  "all_entries entry_ok (fst state) \<Longrightarrow> all_entries entry_ok (fst (process_post p state))"
  by (cases state) (simp add: process_post_def Let_def fold_accumulate_entry_ok)

lemma fold_process_post_entry_ok:
  "all_entries entry_ok (fst state) \<Longrightarrow> all_entries entry_ok (fst (fold process_post posts state))"
  by (induction posts arbitrary: state) (simp_all add: process_post_entry_ok)

lemma entry_ok_built:
  assumes "map_of (fst (fold process_post posts ([], [], files))) t = Some e"
  shows "entry_ok e"
proof -
  have "all_entries entry_ok (fst (fold process_post posts ([], [], files)))"
    using fold_process_post_entry_ok [of "([], [], files)" posts] by (simp add: all_entries_Nil)
  then show ?thesis
    using assms by (auto simp: all_entries_def)
qed

text \<open>Ids enter the postings and the metadata only from posts that have a token.\<close>

lemma accumulate_ids_within:
  assumes "all_entries (ids_within S) idx" and "pid \<in> S"
  shows "all_entries (ids_within S) (accumulate pid item idx)"
  using assms
  unfolding all_entries_def accumulate_def Let_def
  by (auto simp: update_conv' ids_within_def empty_entry_def split: option.splits if_splits)

lemma fold_accumulate_ids_within:
  "all_entries (ids_within S) idx \<Longrightarrow> pid \<in> S \<Longrightarrow>
   all_entries (ids_within S) (fold (accumulate pid) items idx)"
  by (induction items arbitrary: idx) (simp_all add: accumulate_ids_within)

lemma process_post_within:
  assumes "tables_within S state"
    and "tokenize_text (clean_text_col p) \<noteq> [] \<Longrightarrow> post_id p \<in> S"
  shows "tables_within S (process_post p state)"
proof (cases state)
  case (fields idx meta files)
  show ?thesis
  proof (cases "tokenize_text (clean_text_col p) = []")
    case True
    then show ?thesis
      using assms(1) fields by (simp add: process_post_def)
  next
    case False
    then have "post_id p \<in> S" by (rule assms(2))
    then show ?thesis
      using assms(1) fields False
      by (simp add: process_post_def Let_def tables_within_def fold_accumulate_ids_within
          dom_update)
  qed
qed

lemma fold_process_post_within:
  assumes "tables_within S state"
    and "\<And>p. p \<in> set posts \<Longrightarrow> tokenize_text (clean_text_col p) \<noteq> [] \<Longrightarrow> post_id p \<in> S"
  shows "tables_within S (fold process_post posts state)"
  using assms
proof (induction posts arbitrary: state)
  case Nil
  then show ?case by simp
next
  case (Cons p posts)
  have "tables_within S (process_post p state)"
    using Cons.prems by (intro process_post_within) auto
  then show ?case
    using Cons.IH [of "process_post p state"] Cons.prems(2) by simp
qed

lemma build_tables_within:
  "tables_within (token_ids posts) (fold process_post posts ([], [], files))"
  by (rule fold_process_post_within)
     (auto simp: tables_within_def all_entries_def token_ids_def)

text \<open>Every id in a postings list has its per-post file.\<close>

lemma process_post_files_cover:
  assumes "files_cover state"
  shows "files_cover (process_post p state)"
proof (cases state)
  case (fields idx meta files)
  have "all_entries (ids_within (insert (post_id p) (dom files))) idx"
    using assms fields by (auto simp: files_cover_def intro: all_entries_mono)
  then have "all_entries (ids_within (insert (post_id p) (dom files)))
      (fold (accumulate (post_id p)) items idx)" for items
    by (rule fold_accumulate_ids_within) simp
  then show ?thesis
    using assms fields by (simp add: process_post_def Let_def files_cover_def)
qed

lemma fold_process_post_files_cover:
  "files_cover state \<Longrightarrow> files_cover (fold process_post posts state)"
  by (induction posts arbitrary: state) (simp_all add: process_post_files_cover)

lemma files_built:
  assumes "map_of (fst (fold process_post posts ([], [], files))) t = Some e"
    and "pid \<in> set (post_ids e)"
  shows "snd (snd (fold process_post posts ([], [], files))) pid \<noteq> None"
proof -
  have "files_cover (fold process_post posts ([], [], files))"
    by (rule fold_process_post_files_cover) (simp add: files_cover_def all_entries_def)
  then show ?thesis
    using assms
    by (cases "fold process_post posts ([], [], files)")
       (auto simp: files_cover_def all_entries_def ids_within_def)
qed

text \<open>The metadata table has one entry per id.\<close>

lemma process_post_meta_distinct:
  "distinct (map fst (fst (snd state))) \<Longrightarrow> distinct (map fst (fst (snd (process_post p state))))"
  by (cases state) (simp add: process_post_def Let_def distinct_update)

lemma fold_process_post_meta_distinct:
  "distinct (map fst (fst (snd state))) \<Longrightarrow>
   distinct (map fst (fst (snd (fold process_post posts state))))"
  by (induction posts arbitrary: state) (simp_all add: process_post_meta_distinct)

text \<open>What a build leaves in the store, and what the engine loads from it.\<close>

lemma build_store:
  assumes "posts \<noteq> []"
  shows "build_inverted_index posts st =
     \<lparr>index_file = Some (fst (fold process_post posts ([], [], json_posts st))),
      metadata_file = Some (fst (snd (fold process_post posts ([], [], json_posts st)))),
      json_posts = snd (snd (fold process_post posts ([], [], json_posts st)))\<rparr>"
  using assms by (simp add: build_inverted_index_def split: prod.splits)

lemma init_loaded:
  "index_file st = Some idx \<Longrightarrow> metadata_file st = Some meta \<Longrightarrow>
   SearchEngine_init stem stop st =
     ([], \<lparr>inverted_index = idx, post_metadata = meta, stemmer = stem, stop_words = stop\<rparr>)"
  by (simp add: SearchEngine_init_def load_json_def)

lemma init_built:
  assumes "posts \<noteq> []"
  shows "SearchEngine_init stem stop (build_inverted_index posts st) =
     ([], \<lparr>inverted_index = fst (fold process_post posts ([], [], json_posts st)),
           post_metadata = fst (snd (fold process_post posts ([], [], json_posts st))),
           stemmer = stem, stop_words = stop\<rparr>)"
  by (rule init_loaded) (simp_all add: build_store [OF assms])

text \<open>The round trip of \<open>tf_total\<close>: it holds after a build over posts whose ids are
  pairwise distinct.\<close>

lemma artifact_tf_file_tf: "artifact_tf st pid t = file_tf (json_posts st) pid t"
  by (simp add: artifact_tf_def file_tf_def)

lemma accumulate_other:
  "t \<noteq> fst item \<Longrightarrow> map_of (accumulate pid item idx) t = map_of idx t"
  by (simp add: accumulate_def Let_def update_conv')

lemma fold_accumulate_other:
  "t \<notin> fst ` set items \<Longrightarrow> map_of (fold (accumulate pid) items idx) t = map_of idx t"
  by (induction items arbitrary: idx) (auto simp: accumulate_other)

lemma accumulate_fresh:
  assumes "\<And>e. map_of idx t = Some e \<Longrightarrow> pid \<notin> set (post_ids e)"
  shows "map_of (accumulate pid (t, n) idx) t =
     Some (case map_of idx t of
             None \<Rightarrow> \<lparr>df = 1, tf_total = n, post_ids = [pid]\<rparr>
           | Some e \<Rightarrow> \<lparr>df = df e + 1, tf_total = tf_total e + n, post_ids = post_ids e @ [pid]\<rparr>)"
  using assms
  by (auto simp: accumulate_def Let_def update_conv' empty_entry_def split: option.splits)

lemma fold_accumulate_fresh:
  assumes "distinct (map fst items)"
    and "map_of items t = Some n"
    and "\<And>e. map_of idx t = Some e \<Longrightarrow> pid \<notin> set (post_ids e)"
  shows "map_of (fold (accumulate pid) items idx) t =
     Some (case map_of idx t of
             None \<Rightarrow> \<lparr>df = 1, tf_total = n, post_ids = [pid]\<rparr>
           | Some e \<Rightarrow> \<lparr>df = df e + 1, tf_total = tf_total e + n, post_ids = post_ids e @ [pid]\<rparr>)"
  using assms
proof (induction items arbitrary: idx)
  case Nil
  then show ?case by simp
next
  case (Cons item items)
  obtain k v where item: "item = (k, v)" by (cases item)
  show ?case
  proof (cases "k = t")
    case True
    then have v: "v = n"
      using Cons.prems(2) item by simp
    have "t \<notin> fst ` set items"
      using Cons.prems(1) item True by auto
    then have "map_of (fold (accumulate pid) items (accumulate pid item idx)) t =
        map_of (accumulate pid item idx) t"
      by (rule fold_accumulate_other)
    then show ?thesis
      using accumulate_fresh [of idx t pid n] Cons.prems(3) item True v by simp
  next
    case False
    have same: "map_of (accumulate pid item idx) t = map_of idx t"
      using False item by (simp add: accumulate_other)
    have "map_of (fold (accumulate pid) items (accumulate pid item idx)) t =
     Some (case map_of (accumulate pid item idx) t of
             None \<Rightarrow> \<lparr>df = 1, tf_total = n, post_ids = [pid]\<rparr>
           | Some e \<Rightarrow> \<lparr>df = df e + 1, tf_total = tf_total e + n, post_ids = post_ids e @ [pid]\<rparr>)"
    proof (rule Cons.IH)
      show "distinct (map fst items)" using Cons.prems(1) by simp
      show "map_of items t = Some n" using Cons.prems(2) item False by simp
      show "pid \<notin> set (post_ids e)" if "map_of (accumulate pid item idx) t = Some e" for e
        using that same Cons.prems(3) by simp
    qed
    then show ?thesis
      using same by simp
  qed
qed

lemma distinct_fold_count_token:
  "distinct (map fst c) \<Longrightarrow> distinct (map fst (fold count_token tokens c))"
  by (induction tokens arbitrary: c) (simp_all add: count_token_def distinct_update)

lemma distinct_Counter: "distinct (map fst (Counter tokens))"
  by (simp add: Counter_def distinct_fold_count_token)

lemma sum_file_tf_other:
  "pid \<notin> set pids \<Longrightarrow>
   sum_list (map (\<lambda>p. file_tf (files(pid \<mapsto> freq)) p t) pids) =
   sum_list (map (\<lambda>p. file_tf files p t) pids)"
  by (induction pids) (auto simp: file_tf_def)

lemma process_post_round_trip:
  assumes "round_trip files idx"
    and "all_entries (ids_within S) idx"
    and "post_id p \<notin> S"
    and "process_post p (idx, meta, files) = (idx', meta', files')"
  shows "round_trip files' idx'"
proof (cases "tokenize_text (clean_text_col p) = []")
  case True
  then show ?thesis
    using assms(1,4) by (simp add: process_post_def)
next
  case False
  let ?pid = "post_id p"
  let ?freq = "Counter (tokenize_text (clean_text_col p))"
  have idx': "idx' = fold (accumulate ?pid) ?freq idx" and files': "files' = files(?pid \<mapsto> ?freq)"
    using assms(4) False by (simp_all add: process_post_def Let_def)
  have fresh: "?pid \<notin> set (post_ids e)" if "map_of idx t = Some e" for t e
    using assms(2,3) that by (auto simp: all_entries_def ids_within_def)
  show ?thesis
    unfolding round_trip_def
  proof (intro allI impI)
    fix t e
    assume e: "map_of idx' t = Some e"
    show "tf_total e = sum_list (map (\<lambda>pid. file_tf files' pid t) (post_ids e))"
    proof (cases "map_of ?freq t")
      case None
      then have "t \<notin> fst ` set ?freq"
        by (simp add: map_of_eq_None_iff)
      then have old: "map_of idx t = Some e"
        using e idx' by (simp add: fold_accumulate_other)
      then have "tf_total e = sum_list (map (\<lambda>pid. file_tf files pid t) (post_ids e))"
        using assms(1) by (simp add: round_trip_def)
      then show ?thesis
        using fresh [OF old] files' by (simp add: sum_file_tf_other)
    next
      case (Some n)
      have new: "map_of idx' t =
        Some (case map_of idx t of
             None \<Rightarrow> \<lparr>df = 1, tf_total = n, post_ids = [?pid]\<rparr>
           | Some e \<Rightarrow> \<lparr>df = df e + 1, tf_total = tf_total e + n, post_ids = post_ids e @ [?pid]\<rparr>)"
        unfolding idx' using distinct_Counter Some fresh by (rule fold_accumulate_fresh)
      have here: "file_tf files' ?pid t = n"
        using Some files' by (simp add: file_tf_def)
      show ?thesis
      proof (cases "map_of idx t")
        case None
        then show ?thesis
          using new e here by auto
      next
        case (Some e0)
        have "tf_total e0 = sum_list (map (\<lambda>pid. file_tf files pid t) (post_ids e0))"
          using assms(1) Some by (simp add: round_trip_def)
        then show ?thesis
          using new e here Some fresh [OF Some] files' by (auto simp: sum_file_tf_other)
      qed
    qed
  qed
qed

lemma fold_process_post_round_trip:
  assumes "distinct (map post_id posts)"
    and "set (map post_id posts) \<inter> S = {}"
    and "round_trip files idx"
    and "all_entries (ids_within S) idx"
    and "fold process_post posts (idx, meta, files) = (idx', meta', files')"
  shows "round_trip files' idx'"
  using assms
proof (induction posts arbitrary: S idx meta files)
  case Nil
  then show ?case by simp
next
  case (Cons p posts)
  obtain idx1 meta1 files1 where step: "process_post p (idx, meta, files) = (idx1, meta1, files1)"
    by (cases "process_post p (idx, meta, files)")
  have notin: "post_id p \<notin> S"
    using Cons.prems(2) by auto
  have rt: "round_trip files1 idx1"
    using Cons.prems(3,4) notin step by (rule process_post_round_trip)
  have "all_entries (ids_within (insert (post_id p) S)) idx"
    using Cons.prems(4) by (auto intro: all_entries_mono)
  then have "all_entries (ids_within (insert (post_id p) S))
      (fold (accumulate (post_id p)) items idx)" for items
    by (rule fold_accumulate_ids_within) simp
  then have within: "all_entries (ids_within (insert (post_id p) S)) idx1"
    using step Cons.prems(4)
    by (auto simp: process_post_def Let_def split: if_splits intro: all_entries_mono)
  show ?case
  proof (rule Cons.IH [of "insert (post_id p) S" files1 idx1 meta1])
    show "distinct (map post_id posts)" using Cons.prems(1) by simp
    show "set (map post_id posts) \<inter> insert (post_id p) S = {}"
      using Cons.prems(1,2) by auto
    show "round_trip files1 idx1" by (rule rt)
    show "all_entries (ids_within (insert (post_id p) S)) idx1" by (rule within)
    show "fold process_post posts (idx1, meta1, files1) = (idx', meta', files')"
      using Cons.prems(5) step by simp
  qed
qed

lemma round_trip_distinct_ids:
  assumes "distinct (map post_id posts)"
    and "posts \<noteq> []"
    and "st = build_inverted_index posts st0"
    and "index_file st = Some idx"
    and "map_of idx t = Some e"
  shows "tf_total e = sum_list (map (\<lambda>pid. artifact_tf st pid t) (post_ids e))"
proof -
  let ?T = "fold process_post posts ([], [], json_posts st0)"
  obtain idx' meta' files' where T: "?T = (idx', meta', files')"
    by (cases ?T)
  have "round_trip files' idx'"
  proof (rule fold_process_post_round_trip [OF assms(1) _ _ _ T])
    show "set (map post_id posts) \<inter> {} = {}" by simp
    show "round_trip (json_posts st0) []" by (simp add: round_trip_def)
    show "all_entries (ids_within {}) []" by (rule all_entries_Nil)
  qed
  moreover have "idx = idx'" "json_posts st = files'"
    using assms(2,3,4) T by (simp_all add: build_store)
  ultimately show ?thesis
    using assms(5) by (simp add: round_trip_def artifact_tf_file_tf)
qed

section \<open>Scoring and ranking\<close>

lemma idf_of_total:
  "idf_of n d = Inr (if d = 0 then 0 else ln (1 + real n / real d))"
proof (cases "d = 0")
  case True
  then show ?thesis by (simp add: idf_of_def)
next
  case False
  then have "0 < 1 + real n / real d"
    by (simp add: add_pos_nonneg)
  with False show ?thesis
    by (simp add: idf_of_def py_truediv_def math_log_def)
qed

lemma search_returns: "\<exists>out ids. search eng st q = Inr (out, ids)"
  by (simp add: search_def idf_of_total Let_def split: list.splits option.splits prod.splits)

lemma update_fresh: "k \<notin> fst ` set al \<Longrightarrow> AList.update k v al = al @ [(k, v)]"
  by (induction al) auto

lemma map_of_fresh: "k \<notin> fst ` set al \<Longrightarrow> map_of al k = None"
  by (simp add: map_of_eq_None_iff)

text \<open>Over a postings list without repetition whose files are all there, the loop scores
  the documents one by one, in the order of the list, and prints no warning.\<close>

lemma fold_score_post_distinct:
  assumes "distinct pids"
    and "\<And>pid. pid \<in> set pids \<Longrightarrow> json_posts st pid \<noteq> None"
    and "set pids \<inter> fst ` set scores = {}"
  shows "fold (score_post st t idf) pids (out, scores) =
         (out, scores @ map (\<lambda>pid. (pid, real (artifact_tf st pid t) * idf)) pids)"
  using assms
proof (induction pids arbitrary: scores)
  case Nil
  then show ?case by simp
next
  case (Cons pid pids)
  obtain freqs where f: "json_posts st pid = Some freqs"
    using Cons.prems(2) [of pid] by auto
  have fresh: "pid \<notin> fst ` set scores"
    using Cons.prems(3) by auto
  let ?v = "real (artifact_tf st pid t) * idf"
  have step: "score_post st t idf pid (out, scores) = (out, scores @ [(pid, ?v)])"
    using f fresh
    by (simp add: score_post_def artifact_tf_def Let_def update_fresh map_of_fresh)
  have "set pids \<inter> fst ` set (scores @ [(pid, ?v)]) = {}"
    using Cons.prems(1,3) by auto
  then have "fold (score_post st t idf) pids (out, scores @ [(pid, ?v)]) =
      (out, (scores @ [(pid, ?v)]) @ map (\<lambda>pid. (pid, real (artifact_tf st pid t) * idf)) pids)"
    using Cons.IH [of "scores @ [(pid, ?v)]"] Cons.prems(1,2) by simp
  then show ?case
    using step by simp
qed

lemma rank_sorted: "sorted (map (\<lambda>x. - snd x) (rank scores))"
  by (simp add: rank_def)

lemma rank_set: "set (rank scores) = set scores"
  by (simp add: rank_def)

lemma rank_length: "length (rank scores) = length scores"
  by (simp add: rank_def)

lemma rank_descending: "sorted_wrt (\<lambda>x y. snd y \<le> snd x) (rank scores)"
proof -
  have "sorted_wrt (\<lambda>x y. - snd x \<le> - snd y) (rank scores)"
    using rank_sorted [of scores] by (simp add: sorted_map)
  then show ?thesis by simp
qed

lemma rank_stable: "filter (\<lambda>x. snd x = s) (rank scores) = filter (\<lambda>x. snd x = s) scores"
proof -
  have "filter (\<lambda>x. - snd x = - s) (sort_key (\<lambda>x. - snd x) scores) =
      filter (\<lambda>x. - snd x = - s) scores"
    by (rule sort_key_stable)
  then show ?thesis by (simp add: rank_def)
qed

lemma rank_top:
  assumes "x \<in> set (take n (rank scores))" and "y \<in> set (drop n (rank scores))"
  shows "snd y \<le> snd x"
proof -
  have "sorted (map (\<lambda>x. - snd x) (take n (rank scores) @ drop n (rank scores)))"
    using rank_sorted [of scores] by simp
  then have "- snd x \<le> - snd y"
    using assms unfolding map_append sorted_append by auto
  then show ?thesis by simp
qed

lemma search_present:
  assumes "preprocess_query (stemmer eng) (stop_words eng) q = t # rest"
    and "map_of (inverted_index eng) t = Some e"
    and "0 < df e"
    and "distinct (post_ids e)"
    and "\<And>pid. pid \<in> set (post_ids e) \<Longrightarrow> json_posts st pid \<noteq> None"
    and "scores = map (\<lambda>pid. (pid, real (artifact_tf st pid t) *
            ln (1 + real (length (post_metadata eng)) / real (df e)))) (post_ids e)"
  shows "search eng st q =
     Inr ([SearchingFor t, TopMatching] @
            map (\<lambda>(PID, score). ResultLine PID score) (take 20 (rank scores)),
          map fst (take 20 (rank scores)))"
proof -
  let ?idf = "ln (1 + real (length (post_metadata eng)) / real (df e))"
  have idf: "idf_of (length (post_metadata eng)) (df e) = Inr ?idf"
    using assms(3) by (simp add: idf_of_total)
  have "fold (score_post st t ?idf) (post_ids e) ([SearchingFor t], []) =
      ([SearchingFor t], [] @ scores)"
    unfolding assms(6) using assms(4,5) by (intro fold_score_post_distinct) auto
  then show ?thesis
    using assms(1,2) idf by (simp add: search_def Let_def)
qed

text \<open>A search on the tables and files of a build.\<close>

lemma search_built:
  assumes "posts \<noteq> []"
    and "st = build_inverted_index posts st0"
    and "eng = snd (SearchEngine_init stem stop st)"
    and "preprocess_query stem stop q = t # rest"
    and "map_of (inverted_index eng) t = Some e"
    and "scores = map (\<lambda>pid. (pid, real (artifact_tf st pid t) *
            ln (1 + real (length (post_metadata eng)) / real (df e)))) (post_ids e)"
  shows "search eng st q =
     Inr ([SearchingFor t, TopMatching] @
            map (\<lambda>(PID, score). ResultLine PID score) (take 20 (rank scores)),
          map fst (take 20 (rank scores)))"
proof -
  let ?T = "fold process_post posts ([], [], json_posts st0)"
  have eng: "eng = \<lparr>inverted_index = fst ?T, post_metadata = fst (snd ?T),
      stemmer = stem, stop_words = stop\<rparr>"
    using assms(2,3) by (simp add: init_built [OF assms(1)])
  have files: "json_posts st = snd (snd ?T)"
    using assms(2) by (simp add: build_store [OF assms(1)])
  have e: "map_of (fst ?T) t = Some e"
    using assms(5) eng by simp
  have ok: "entry_ok e"
    using e by (rule entry_ok_built)
  show ?thesis
  proof (rule search_present [where e = e and rest = rest])
    show "preprocess_query (stemmer eng) (stop_words eng) q = t # rest"
      using assms(4) eng by simp
    show "map_of (inverted_index eng) t = Some e" by (rule assms(5))
    show "0 < df e" using ok by (simp add: entry_ok_def)
    show "distinct (post_ids e)" using ok by (simp add: entry_ok_def)
    show "json_posts st pid \<noteq> None" if "pid \<in> set (post_ids e)" for pid
      using files_built [OF e that] files by simp
    show "scores = map (\<lambda>pid. (pid, real (artifact_tf st pid t) *
            ln (1 + real (length (post_metadata eng)) / real (df e)))) (post_ids e)"
      by (rule assms(6))
  qed
qed

text \<open>The scoring loop over a postings list without repetition, whatever files are there:
  a document whose file is missing gets a warning and no score, the others are scored one
  by one in the order of the list.\<close>

lemma fold_score_post_files:
  assumes "distinct pids"
    and "set pids \<inter> fst ` set scores = {}"
  shows "fold (score_post st t idf) pids (out, scores) =
         (out @ map JsonMissing (filter (\<lambda>pid. json_posts st pid = None) pids),
          scores @ map (\<lambda>pid. (pid, real (artifact_tf st pid t) * idf))
                     (filter (\<lambda>pid. json_posts st pid \<noteq> None) pids))"
  using assms
proof (induction pids arbitrary: out scores)
  case Nil
  then show ?case by simp
next
  case (Cons pid pids)
  have fresh: "pid \<notin> fst ` set scores"
    using Cons.prems(2) by auto
  show ?case
  proof (cases "json_posts st pid")
    case None
    then have step: "score_post st t idf pid (out, scores) = (out @ [JsonMissing pid], scores)"
      by (simp add: score_post_def)
    have "set pids \<inter> fst ` set scores = {}"
      using Cons.prems(2) by auto
    then show ?thesis
      using Cons.IH [of scores "out @ [JsonMissing pid]"] Cons.prems(1) step None by simp
  next
    case (Some freqs)
    let ?v = "real (artifact_tf st pid t) * idf"
    have step: "score_post st t idf pid (out, scores) = (out, scores @ [(pid, ?v)])"
      using Some fresh
      by (simp add: score_post_def artifact_tf_def Let_def update_fresh map_of_fresh)
    have "set pids \<inter> fst ` set (scores @ [(pid, ?v)]) = {}"
      using Cons.prems by auto
    then show ?thesis
      using Cons.IH [of "scores @ [(pid, ?v)]" out] Cons.prems(1) step Some by simp
  qed
qed

lemma search_ranked:
  assumes "preprocess_query (stemmer eng) (stop_words eng) q = t # rest"
    and "map_of (inverted_index eng) t = Some e"
    and "distinct (post_ids e)"
    and "idf = (if df e = 0 then 0
                else ln (1 + real (length (post_metadata eng)) / real (df e)))"
    and "scores = map (\<lambda>pid. (pid, real (artifact_tf st pid t) * idf)) (matching st e)"
  shows "search eng st q =
           Inr ([SearchingFor t] @
                  map JsonMissing (filter (\<lambda>pid. json_posts st pid = None) (post_ids e)) @
                  [TopMatching] @
                  map (\<lambda>(PID, score). ResultLine PID score) (take 20 (rank scores)),
                map fst (take 20 (rank scores)))"
proof -
  have idf: "idf_of (length (post_metadata eng)) (df e) = Inr idf"
    using assms(4) by (simp add: idf_of_total)
  have "fold (score_post st t idf) (post_ids e) ([SearchingFor t], []) =
      ([SearchingFor t] @ map JsonMissing (filter (\<lambda>pid. json_posts st pid = None) (post_ids e)),
       [] @ scores)"
    unfolding assms(5) matching_def using assms(3) by (intro fold_score_post_files) auto
  then show ?thesis
    using assms(1,2) idf by (simp add: search_def Let_def)
qed

lemma rank_distinct: "distinct (map snd scores) \<Longrightarrow> distinct (map snd (rank scores))"
  by (simp add: rank_def distinct_map)

lemma rank_top_strict:
  assumes "distinct (map snd scores)"
    and "x \<in> set (take n (rank scores))" and "y \<in> set (drop n (rank scores))"
  shows "snd y < snd x"
proof -
  have d: "distinct (map snd (rank scores))"
    using assms(1) by (rule rank_distinct)
  then have "distinct (rank scores)" and inj: "inj_on snd (set (rank scores))"
    by (simp_all add: distinct_map)
  then have "set (take n (rank scores)) \<inter> set (drop n (rank scores)) = {}"
    by (simp add: set_take_disj_set_drop_if_distinct)
  then have "x \<noteq> y"
    using assms(2,3) by auto
  moreover have "x \<in> set (rank scores)" "y \<in> set (rank scores)"
    using assms(2,3) by (auto dest: in_set_takeD in_set_dropD)
  ultimately have "snd x \<noteq> snd y"
    using inj by (auto dest: inj_onD)
  moreover have "snd y \<le> snd x"
    using assms(2,3) by (rule rank_top)
  ultimately show ?thesis by simp
qed

text \<open>Scores that are all the same are left as they stand.\<close>

lemma rank_all_equal:
  assumes "\<And>x. x \<in> set scores \<Longrightarrow> snd x = c"
  shows "rank scores = scores"
proof -
  have "filter (\<lambda>x. snd x = c) (rank scores) = filter (\<lambda>x. snd x = c) scores"
    by (rule rank_stable)
  moreover have "filter (\<lambda>x. snd x = c) (rank scores) = rank scores"
    using assms by (simp add: rank_set)
  moreover have "filter (\<lambda>x. snd x = c) scores = scores"
    using assms by simp
  ultimately show ?thesis by simp
qed

section \<open>The examples, evaluated\<close>

lemmas text_defs = lower_def lower_char_def ascii_uppercase_def ascii_lowercase_def
  latin1_upper_def latin1_lower_def latin1_other_alpha_def latin1_numeric_def digits_def
  punctuation_def remove_punctuation_def is_alpha_def is_digit_def is_word_def is_space_def
  is_ascii_def isalpha_def match_url_def match_tag_def nonspace_run_def orelse_def tokenize_def

lemmas build_defs = build_inverted_index_def process_post_def tokenize_text_def tokenize_def
  is_space_def Counter_def count_token_def accumulate_def empty_entry_def Let_def
  empty_store_def

lemma build_A: "build_inverted_index scenario_A empty_store = store_A"
  by (simp add: build_defs scenario_A_def store_A_def index_A_def meta_A_def files_A_def
      numeral_2_eq_2)

lemma init_A: "SearchEngine_init example_stem example_stop store_A = ([], engine_A)"
  by (simp add: SearchEngine_init_def load_json_def store_A_def engine_A_def)

lemma query_cats: "preprocess_query example_stem example_stop ''cats'' = [''cat'']"
  by (simp add: preprocess_query_def text_defs example_stem_def example_stop_def)

lemma query_punctuation: "preprocess_query example_stem example_stop ''?!'' = []"
  by (simp add: preprocess_query_def text_defs example_stem_def example_stop_def)

lemma query_zebra: "preprocess_query example_stem example_stop ''zebra'' = [''zebra'']"
  by (simp add: preprocess_query_def text_defs example_stem_def example_stop_def)

lemma search_A_cats:
  "search engine_A store_A ''cats'' =
     Inr ([SearchingFor ''cat'', TopMatching,
           ResultLine ''1'' (2 * ln (5 / 2)), ResultLine ''2'' (ln (5 / 2))],
          [''1'', ''2''])"
  by (simp add: search_def query_cats engine_A_def store_A_def index_A_def meta_A_def
      files_A_def idf_of_total score_post_def rank_def Let_def)

lemma build_tie:
  "build_inverted_index tie_posts empty_store =
     \<lparr>index_file = Some [(''cat'', \<lparr>df = 2, tf_total = 2, post_ids = [''2'', ''1'']\<rparr>)],
      metadata_file = Some
        [(''2'', \<lparr>max_tf_term = ''cat'', max_tf = 1, length_tokens = 1, likes = None,
                 comments = None, date = None\<rparr>),
         (''1'', \<lparr>max_tf_term = ''cat'', max_tf = 1, length_tokens = 1, likes = None,
                 comments = None, date = None\<rparr>)],
      json_posts = [''2'' \<mapsto> [(''cat'', 1)], ''1'' \<mapsto> [(''cat'', 1)]]\<rparr>"
  by (simp add: build_defs tie_posts_def)

lemma search_tie:
  "search (snd (SearchEngine_init example_stem example_stop
                  (build_inverted_index tie_posts empty_store)))
      (build_inverted_index tie_posts empty_store) ''cats'' =
     Inr ([SearchingFor ''cat'', TopMatching, ResultLine ''2'' (ln 2), ResultLine ''1'' (ln 2)],
          [''2'', ''1''])"
  by (simp add: build_tie search_def query_cats SearchEngine_init_def load_json_def
      idf_of_total score_post_def rank_def Let_def)

lemma build_twice:
  "index_file (build_inverted_index [doc_cat, doc_cat] empty_store) =
      Some [(''cat'', \<lparr>df = 1, tf_total = 2, post_ids = [''1'']\<rparr>)] \<and>
   json_posts (build_inverted_index [doc_cat, doc_cat] empty_store) ''1'' = Some [(''cat'', 1)] \<and>
   index_file (build_inverted_index [doc_cat] empty_store) =
      Some [(''cat'', \<lparr>df = 1, tf_total = 1, post_ids = [''1'']\<rparr>)]"
  by (simp add: build_defs doc_cat_def)

lemma build_with_empty:
  "build_inverted_index [doc_cat, doc_empty] empty_store =
     \<lparr>index_file = Some [(''cat'', \<lparr>df = 1, tf_total = 1, post_ids = [''1'']\<rparr>)],
      metadata_file = Some
        [(''1'', \<lparr>max_tf_term = ''cat'', max_tf = 1, length_tokens = 1, likes = None,
                 comments = None, date = None\<rparr>)],
      json_posts = [''1'' \<mapsto> [(''cat'', 1)]]\<rparr>"
  by (simp add: build_defs doc_cat_def doc_empty_def)

lemma build_D: "build_inverted_index posts_D empty_store = store_D"
  by (simp add: build_defs posts_D_def store_D_def meta_D_def files_D_def postings_D_def
      eval_nat_numeral)

lemma init_D: "SearchEngine_init example_stem example_stop store_D = ([], engine_D)"
  by (simp add: SearchEngine_init_def load_json_def store_D_def engine_D_def)

lemma matching_D:
  "matching store_D \<lparr>df = 25, tf_total = 325, post_ids = postings_D\<rparr> = postings_D"
  by (simp add: matching_def store_D_def files_D_def postings_D_def)

lemma rank_D:
  "map fst (take 20 (rank (map (\<lambda>pid. (pid, real (artifact_tf store_D pid ''cat'') * ln 2))
      postings_D))) =
     [''125'', ''124'', ''123'', ''122'', ''121'', ''120'', ''119'', ''118'', ''117'', ''116'', ''115'', ''114'', ''113'', ''112'', ''111'', ''110'', ''109'', ''108'', ''107'', ''106'']"
  by (simp add: rank_def artifact_tf_def store_D_def files_D_def postings_D_def)

section \<open>The claims\<close>

text \<open>
  C1 (fails on the code). The claim: \<open>preprocess_query\<close> yields, for every string, the
  token sequence that tokenizing \<open>clean_text\<close> of the string yields. The code of
  \<open>preprocess_query\<close> has neither the URL step, nor the digit step, nor the non-ASCII step,
  nor the test \<open>len(word) > 2\<close>. Whatever the stemmer and the stop words: on \<open>ox\<close> and on
  \<open>www.zebra.com\<close> the query side keeps a token where the index side has none; on \<open>abc123\<close>
  the query side has no token where the index side has the stem of \<open>abc\<close>; on \<open>caf\<close> followed
  by U+00E9 the query side stems the whole word and the index side stems \<open>caf\<close>.
\<close>

theorem preprocess_query_differs:
  "preprocess_query stem stop ''ox'' = (if ''ox'' \<in> stop then [] else [stem ''ox'']) \<and>
   tokenize_text (Some (clean_text stem stop ''ox'')) = [] \<and>
   preprocess_query stem stop ''www.zebra.com'' =
     (if ''wwwzebracom'' \<in> stop then [] else [stem ''wwwzebracom'']) \<and>
   tokenize_text (Some (clean_text stem stop ''www.zebra.com'')) = [] \<and>
   preprocess_query stem stop ''abc123'' = [] \<and>
   clean_text stem stop ''abc123'' = (if ''abc'' \<in> stop then [] else stem ''abc'') \<and>
   preprocess_query stem stop [CHR ''c'', CHR ''a'', CHR ''f'', CHR 0xE9] =
     (if [CHR ''c'', CHR ''a'', CHR ''f'', CHR 0xE9] \<in> stop then []
      else [stem [CHR ''c'', CHR ''a'', CHR ''f'', CHR 0xE9]]) \<and>
   clean_text stem stop [CHR ''c'', CHR ''a'', CHR ''f'', CHR 0xE9] =
     (if ''caf'' \<in> stop then [] else stem ''caf'')"
proof -
  have "preprocess_query stem stop ''ox'' = (if ''ox'' \<in> stop then [] else [stem ''ox''])"
    by (simp add: preprocess_query_def text_defs)
  moreover have "tokenize_text (Some (clean_text stem stop ''ox'')) = []"
    by (simp add: clean_text_def tokenize_text_def text_defs)
  moreover have "preprocess_query stem stop ''www.zebra.com'' =
     (if ''wwwzebracom'' \<in> stop then [] else [stem ''wwwzebracom''])"
    by (simp add: preprocess_query_def text_defs)
  moreover have "tokenize_text (Some (clean_text stem stop ''www.zebra.com'')) = []"
    by (simp add: clean_text_def tokenize_text_def text_defs)
  moreover have "preprocess_query stem stop ''abc123'' = []"
    by (simp add: preprocess_query_def text_defs)
  moreover have "clean_text stem stop ''abc123'' = (if ''abc'' \<in> stop then [] else stem ''abc'')"
    by (simp add: clean_text_def text_defs)
  moreover have "preprocess_query stem stop [CHR ''c'', CHR ''a'', CHR ''f'', CHR 0xE9] =
     (if [CHR ''c'', CHR ''a'', CHR ''f'', CHR 0xE9] \<in> stop then []
      else [stem [CHR ''c'', CHR ''a'', CHR ''f'', CHR 0xE9]])"
    by (simp add: preprocess_query_def text_defs)
  moreover have "clean_text stem stop [CHR ''c'', CHR ''a'', CHR ''f'', CHR 0xE9] =
     (if ''caf'' \<in> stop then [] else stem ''caf'')"
    by (simp add: clean_text_def text_defs)
  ultimately show ?thesis
    by (simp only: simp_thms)
qed

theorem preprocess_query_differs_witness:
  "preprocess_query example_stem example_stop ''ox'' = [''ox''] \<and>
   tokenize_text (Some (clean_text example_stem example_stop ''ox'')) = []"
  using preprocess_query_differs [of example_stem example_stop]
  by (simp add: example_stem_def example_stop_def)

text \<open>
  C2. On the tables and files of a build, for a query whose first normalized term \<open>t\<close> is in
  the postings table with entry \<open>e\<close>: \<open>df e\<close> is positive; the number \<open>N\<close> the engine uses
  is the number of documents in the metadata artifact; \<open>idf\<close> is \<open>ln (1 + N / df)\<close> (no
  exception); the scoring loop gives every document of the postings list, in the order of
  the list, the score \<open>frequency * idf\<close>, the frequency read from the document's per-post
  file; and \<open>search\<close> ranks exactly these scores. Floats are idealised as reals.
\<close>

theorem search_scores_tf_idf:
  assumes "posts \<noteq> []"
    and "st = build_inverted_index posts st0"
    and "eng = snd (SearchEngine_init stem stop st)"
    and "preprocess_query stem stop q = t # rest"
    and "map_of (inverted_index eng) t = Some e"
    and "idf = ln (1 + real (length (post_metadata eng)) / real (df e))"
    and "scores = map (\<lambda>pid. (pid, real (artifact_tf st pid t) * idf)) (post_ids e)"
  shows "0 < df e \<and>
         metadata_file st = Some (post_metadata eng) \<and>
         length (post_metadata eng) = card (dom (map_of (post_metadata eng))) \<and>
         idf_of (length (post_metadata eng)) (df e) = Inr idf \<and>
         fold (score_post st t idf) (post_ids e) ([SearchingFor t], []) = ([SearchingFor t], scores) \<and>
         search eng st q =
           Inr ([SearchingFor t, TopMatching] @
                  map (\<lambda>(PID, score). ResultLine PID score) (take 20 (rank scores)),
                map fst (take 20 (rank scores)))"
proof -
  let ?T = "fold process_post posts ([], [], json_posts st0)"
  have eng: "eng = \<lparr>inverted_index = fst ?T, post_metadata = fst (snd ?T),
      stemmer = stem, stop_words = stop\<rparr>"
    using assms(2,3) by (simp add: init_built [OF assms(1)])
  have store: "metadata_file st = Some (fst (snd ?T))" "json_posts st = snd (snd ?T)"
    using assms(2) by (simp_all add: build_store [OF assms(1)])
  have e: "map_of (fst ?T) t = Some e"
    using assms(5) eng by simp
  have ok: "entry_ok e"
    using e by (rule entry_ok_built)
  then have pos: "0 < df e"
    by (simp add: entry_ok_def)
  have "distinct (map fst (fst (snd ?T)))"
    using fold_process_post_meta_distinct [of "([], [], json_posts st0)" posts] by simp
  then have "length (fst (snd ?T)) = card (dom (map_of (fst (snd ?T))))"
    using distinct_card [of "map fst (fst (snd ?T))"]
    by (simp add: dom_map_of_conv_image_fst)
  then have n: "length (post_metadata eng) = card (dom (map_of (post_metadata eng)))"
    using eng by simp
  have idf: "idf_of (length (post_metadata eng)) (df e) = Inr idf"
    using pos assms(6) by (simp add: idf_of_total)
  have "fold (score_post st t idf) (post_ids e) ([SearchingFor t], []) =
      ([SearchingFor t], [] @ scores)"
    unfolding assms(7)
  proof (rule fold_score_post_distinct)
    show "distinct (post_ids e)"
      using ok by (simp add: entry_ok_def)
    show "json_posts st pid \<noteq> None" if "pid \<in> set (post_ids e)" for pid
      using files_built [OF e that] store by simp
    show "set (post_ids e) \<inter> fst ` set [] = {}"
      by simp
  qed
  then have loop: "fold (score_post st t idf) (post_ids e) ([SearchingFor t], []) =
      ([SearchingFor t], scores)"
    by simp
  have "search eng st q =
           Inr ([SearchingFor t, TopMatching] @
                  map (\<lambda>(PID, score). ResultLine PID score) (take 20 (rank scores)),
                map fst (take 20 (rank scores)))"
    using assms(1,2,3,4,5) assms(7) [unfolded assms(6)] by (rule search_built)
  then show ?thesis
    using pos store(1) eng n idf loop by simp
qed

theorem search_scores_tf_idf_witness:
  "scenario_A \<noteq> [] \<and>
   store_A = build_inverted_index scenario_A empty_store \<and>
   engine_A = snd (SearchEngine_init example_stem example_stop store_A) \<and>
   preprocess_query example_stem example_stop ''cats'' = [''cat''] \<and>
   map_of (inverted_index engine_A) ''cat'' =
     Some \<lparr>df = 2, tf_total = 3, post_ids = [''1'', ''2'']\<rparr> \<and>
   fold (score_post store_A ''cat'' (ln (5 / 2))) [''1'', ''2''] ([SearchingFor ''cat''], []) =
     ([SearchingFor ''cat''], [(''1'', 2 * ln (5 / 2)), (''2'', ln (5 / 2))]) \<and>
   search engine_A store_A ''cats'' =
     Inr ([SearchingFor ''cat'', TopMatching,
           ResultLine ''1'' (2 * ln (5 / 2)), ResultLine ''2'' (ln (5 / 2))],
          [''1'', ''2''])"
proof -
  have h1: "scenario_A \<noteq> []"
    by (simp add: scenario_A_def)
  have h2: "store_A = build_inverted_index scenario_A empty_store"
    by (simp add: build_A)
  have h3: "engine_A = snd (SearchEngine_init example_stem example_stop store_A)"
    by (simp add: init_A)
  have h4: "preprocess_query example_stem example_stop ''cats'' = ''cat'' # []"
    by (rule query_cats)
  have h5: "map_of (inverted_index engine_A) ''cat'' =
      Some \<lparr>df = 2, tf_total = 3, post_ids = [''1'', ''2'']\<rparr>"
    by (simp add: engine_A_def index_A_def)
  have tf: "artifact_tf store_A ''1'' ''cat'' = 2" "artifact_tf store_A ''2'' ''cat'' = 1"
    by (simp_all add: artifact_tf_def store_A_def files_A_def)
  have n: "length (post_metadata engine_A) = 3"
    by (simp add: engine_A_def meta_A_def)
  have loop: "fold (score_post store_A ''cat'' (ln (5 / 2))) [''1'', ''2'']
      ([SearchingFor ''cat''], []) =
     ([SearchingFor ''cat''], [(''1'', 2 * ln (5 / 2)), (''2'', ln (5 / 2))])"
    using search_scores_tf_idf [OF h1 h2 h3 h4 h5 refl refl,
        THEN conjunct2, THEN conjunct2, THEN conjunct2, THEN conjunct2, THEN conjunct1]
    by (simp add: tf n)
  show ?thesis
    by (intro conjI h1 h2 h3 h4 h5 loop search_A_cats)
qed

text \<open>
  C3 (as stated it fails; the example). The claim has \<open>search\<close> return (document id, score)
  pairs. On scenario A the query \<open>cats\<close> returns the list of ids \<open>1, 2\<close>; the pairs, with
  the scores, are only printed.
\<close>

theorem search_returns_ids_counterexample:
  "search (snd (SearchEngine_init example_stem example_stop
                  (build_inverted_index scenario_A empty_store)))
      (build_inverted_index scenario_A empty_store) ''cats'' =
     Inr ([SearchingFor ''cat'', TopMatching,
           ResultLine ''1'' (2 * ln (5 / 2)), ResultLine ''2'' (ln (5 / 2))],
          [''1'', ''2''])"
  by (simp add: build_A init_A search_A_cats)

text \<open>
  C3 (amended). Only the shape of the result changes: \<open>search\<close> returns document ids, not
  (id, score) pairs. For a query whose first normalized term is in the postings table, with
  a postings list without repetition (as every build writes it, C5): the documents that
  match are those of the postings list whose per-post file is there, all of the list when
  no file is missing; each gets the score \<open>frequency * idf\<close>; \<open>search\<close> prints a warning for
  every missing file and returns the ids of the first 20 items of the ranking of these
  scores, highest first, no id twice. So it returns 20 ids when at least 20 documents match
  and all of them otherwise; no document left out has a higher score than one returned,
  and with pairwise distinct scores every one left out has a lower score than every one
  returned.
\<close>

theorem search_top_20:
  assumes "preprocess_query (stemmer eng) (stop_words eng) q = t # rest"
    and "map_of (inverted_index eng) t = Some e"
    and "distinct (post_ids e)"
    and "idf = (if df e = 0 then 0
                else ln (1 + real (length (post_metadata eng)) / real (df e)))"
    and "scores = map (\<lambda>pid. (pid, real (artifact_tf st pid t) * idf)) (matching st e)"
    and "ids = map fst (take 20 (rank scores))"
  shows "search eng st q =
           Inr ([SearchingFor t] @
                  map JsonMissing (filter (\<lambda>pid. json_posts st pid = None) (post_ids e)) @
                  [TopMatching] @
                  map (\<lambda>(PID, score). ResultLine PID score) (take 20 (rank scores)),
                ids) \<and>
         length ids = min 20 (length (matching st e)) \<and>
         distinct ids \<and>
         set (rank scores) = set scores \<and>
         sorted_wrt (\<lambda>x y. snd y \<le> snd x) (rank scores) \<and>
         (\<forall>x \<in> set (take 20 (rank scores)). \<forall>y \<in> set (drop 20 (rank scores)). snd y \<le> snd x) \<and>
         (distinct (map snd scores) \<longrightarrow>
            (\<forall>x \<in> set (take 20 (rank scores)). \<forall>y \<in> set (drop 20 (rank scores)). snd y < snd x)) \<and>
         ((\<forall>pid \<in> set (post_ids e). json_posts st pid \<noteq> None) \<longrightarrow> matching st e = post_ids e)"
proof -
  have s: "search eng st q =
           Inr ([SearchingFor t] @
                  map JsonMissing (filter (\<lambda>pid. json_posts st pid = None) (post_ids e)) @
                  [TopMatching] @
                  map (\<lambda>(PID, score). ResultLine PID score) (take 20 (rank scores)),
                ids)"
    unfolding assms(6) using assms(1-5) by (rule search_ranked)
  have l: "length ids = min 20 (length (matching st e))"
    using assms(5,6) by (simp add: rank_length min.commute)
  have "map fst scores = matching st e"
    using assms(5) by (simp add: comp_def)
  then have "distinct (map fst scores)"
    using assms(3) by (simp add: matching_def)
  then have "distinct (map fst (rank scores))"
    by (simp add: rank_def distinct_map)
  then have d: "distinct ids"
    unfolding assms(6) by (simp add: take_map [symmetric] distinct_take)
  have top: "\<forall>x \<in> set (take 20 (rank scores)). \<forall>y \<in> set (drop 20 (rank scores)). snd y \<le> snd x"
    using rank_top by blast
  have strict: "distinct (map snd scores) \<longrightarrow>
      (\<forall>x \<in> set (take 20 (rank scores)). \<forall>y \<in> set (drop 20 (rank scores)). snd y < snd x)"
    using rank_top_strict by blast
  have all: "(\<forall>pid \<in> set (post_ids e). json_posts st pid \<noteq> None) \<longrightarrow> matching st e = post_ids e"
    by (simp add: matching_def)
  show ?thesis
    using s l d top strict all by (simp add: rank_set rank_descending)
qed

theorem search_top_20_witness:
  "build_inverted_index posts_D empty_store = store_D \<and>
   SearchEngine_init example_stem example_stop store_D = ([], engine_D) \<and>
   preprocess_query (stemmer engine_D) (stop_words engine_D) ''cats'' = [''cat''] \<and>
   map_of (inverted_index engine_D) ''cat'' =
     Some \<lparr>df = 25, tf_total = 325, post_ids = postings_D\<rparr> \<and>
   distinct postings_D \<and>
   length (matching store_D \<lparr>df = 25, tf_total = 325, post_ids = postings_D\<rparr>) = 25 \<and>
   (\<exists>out. search engine_D store_D ''cats'' =
      Inr (out, [''125'', ''124'', ''123'', ''122'', ''121'', ''120'', ''119'', ''118'', ''117'', ''116'', ''115'', ''114'', ''113'', ''112'', ''111'', ''110'', ''109'', ''108'', ''107'', ''106'']))"
proof -
  let ?e = "\<lparr>df = 25, tf_total = 325, post_ids = postings_D\<rparr>"
  have h1: "preprocess_query (stemmer engine_D) (stop_words engine_D) ''cats'' = ''cat'' # []"
    by (simp add: engine_D_def query_cats)
  have h2: "map_of (inverted_index engine_D) ''cat'' = Some ?e"
    by (simp add: engine_D_def)
  have h3: "distinct postings_D"
    by (simp add: postings_D_def)
  have h3': "distinct (post_ids ?e)"
    using h3 by simp
  have n: "length (post_metadata engine_D) = 25"
    by (simp add: engine_D_def meta_D_def)
  have m: "length (matching store_D ?e) = 25"
    unfolding matching_D by (simp add: postings_D_def)
  note r = search_top_20 [OF h1 h2 h3' refl refl refl, of store_D, THEN conjunct1]
  have "\<exists>out. search engine_D store_D ''cats'' =
      Inr (out, map fst (take 20 (rank (map (\<lambda>pid. (pid, real (artifact_tf store_D pid ''cat'') * ln 2))
      postings_D))))"
    using r by (simp add: matching_D n)
  then have s: "\<exists>out. search engine_D store_D ''cats'' =
      Inr (out, [''125'', ''124'', ''123'', ''122'', ''121'', ''120'', ''119'', ''118'', ''117'', ''116'', ''115'', ''114'', ''113'', ''112'', ''111'', ''110'', ''109'', ''108'', ''107'', ''106''])"
    unfolding rank_D .
  show ?thesis
    by (intro conjI build_D init_D h1 h2 h3 m s)
qed

text \<open>
  C4 (as stated it fails; the example). Two documents with the same text are indexed, id
  \<open>2\<close> before id \<open>1\<close>. Their scores tie, and the query returns \<open>2\<close> before \<open>1\<close>, the order
  of the postings list, although \<open>1\<close> is the smaller id.
\<close>

theorem tie_order_counterexample:
  "search (snd (SearchEngine_init example_stem example_stop
                  (build_inverted_index tie_posts empty_store)))
      (build_inverted_index tie_posts empty_store) ''cats'' =
     Inr ([SearchingFor ''cat'', TopMatching, ResultLine ''2'' (ln 2), ResultLine ''1'' (ln 2)],
          [''2'', ''1'']) \<and>
   ''1'' < ''2''"
  using search_tie by simp

text \<open>
  C4 (amended). The ranking is a stable sort by score, highest first, with no secondary
  key: on the tables and files of a build the scores are taken in the order of the term's
  postings list, and the documents of any one score \<open>s\<close> stand in the ranking in that same
  order.
\<close>

theorem search_ties_keep_postings_order:
  assumes "posts \<noteq> []"
    and "st = build_inverted_index posts st0"
    and "eng = snd (SearchEngine_init stem stop st)"
    and "preprocess_query stem stop q = t # rest"
    and "map_of (inverted_index eng) t = Some e"
    and "scores = map (\<lambda>pid. (pid, real (artifact_tf st pid t) *
            ln (1 + real (length (post_metadata eng)) / real (df e)))) (post_ids e)"
  shows "search eng st q =
           Inr ([SearchingFor t, TopMatching] @
                  map (\<lambda>(PID, score). ResultLine PID score) (take 20 (rank scores)),
                map fst (take 20 (rank scores))) \<and>
         map fst scores = post_ids e \<and>
         filter (\<lambda>x. snd x = s) (rank scores) = filter (\<lambda>x. snd x = s) scores"
proof -
  have "search eng st q =
           Inr ([SearchingFor t, TopMatching] @
                  map (\<lambda>(PID, score). ResultLine PID score) (take 20 (rank scores)),
                map fst (take 20 (rank scores)))"
    using assms by (rule search_built)
  moreover have "map fst scores = post_ids e"
    unfolding assms(6) by (simp add: comp_def)
  ultimately show ?thesis
    by (simp add: rank_stable)
qed

theorem search_ties_keep_postings_order_witness:
  "tie_posts \<noteq> [] \<and>
   preprocess_query example_stem example_stop ''cats'' = [''cat''] \<and>
   map_of (inverted_index (snd (SearchEngine_init example_stem example_stop
       (build_inverted_index tie_posts empty_store)))) ''cat'' =
     Some \<lparr>df = 2, tf_total = 2, post_ids = [''2'', ''1'']\<rparr> \<and>
   filter (\<lambda>x. snd x = ln 2) (rank [(''2'', ln 2), (''1'', ln 2)]) = [(''2'', ln 2), (''1'', ln 2)]"
proof -
  let ?st = "build_inverted_index tie_posts empty_store"
  let ?eng = "snd (SearchEngine_init example_stem example_stop ?st)"
  have h1: "tie_posts \<noteq> []"
    by (simp add: tie_posts_def)
  have h4: "preprocess_query example_stem example_stop ''cats'' = ''cat'' # []"
    by (rule query_cats)
  have h5: "map_of (inverted_index ?eng) ''cat'' =
      Some \<lparr>df = 2, tf_total = 2, post_ids = [''2'', ''1'']\<rparr>"
    by (simp add: build_tie SearchEngine_init_def load_json_def)
  have n: "length (post_metadata ?eng) = 2"
    by (simp add: build_tie SearchEngine_init_def load_json_def)
  have tf: "artifact_tf ?st ''2'' ''cat'' = 1" "artifact_tf ?st ''1'' ''cat'' = 1"
    by (simp_all add: build_tie artifact_tf_def)
  have "filter (\<lambda>x. snd x = ln 2) (rank [(''2'', ln 2), (''1'', ln 2)]) =
      [(''2'', ln 2), (''1'', ln 2)]"
    using search_ties_keep_postings_order [OF h1 refl refl h4 h5 refl, of "ln 2",
        THEN conjunct2, THEN conjunct2]
    by (simp add: n tf)
  then show ?thesis
    by (intro conjI h1 h4 h5)
qed

text \<open>
  C5. Whenever the builder writes an index (the corpus is not empty), every term of the
  postings table has \<open>df\<close> equal to the number of document ids in its postings list, and
  that list holds no id twice. Nothing is asked of the corpus: it may repeat ids.
\<close>

theorem build_df_postings:
  assumes "posts \<noteq> []"
    and "index_file (build_inverted_index posts st) = Some idx"
    and "map_of idx t = Some e"
  shows "df e = length (post_ids e) \<and> distinct (post_ids e) \<and> df e = card (set (post_ids e))"
proof -
  have "idx = fst (fold process_post posts ([], [], json_posts st))"
    using assms(1,2) by (simp add: build_store)
  then have "entry_ok e"
    using assms(3) entry_ok_built by simp
  then show ?thesis
    by (simp add: entry_ok_def distinct_card)
qed

theorem build_df_postings_witness:
  "scenario_A \<noteq> [] \<and>
   index_file (build_inverted_index scenario_A empty_store) = Some index_A \<and>
   map_of index_A ''cat'' = Some \<lparr>df = 2, tf_total = 3, post_ids = [''1'', ''2'']\<rparr> \<and>
   df \<lparr>df = 2, tf_total = 3, post_ids = [''1'', ''2'']\<rparr> = length [''1'', ''2''] \<and>
   distinct [''1'', ''2'']"
proof -
  have h1: "scenario_A \<noteq> []"
    by (simp add: scenario_A_def)
  have h2: "index_file (build_inverted_index scenario_A empty_store) = Some index_A"
    by (simp add: build_A store_A_def)
  have h3: "map_of index_A ''cat'' = Some \<lparr>df = 2, tf_total = 3, post_ids = [''1'', ''2'']\<rparr>"
    by (simp add: index_A_def)
  show ?thesis
    using build_df_postings [OF h1 h2 h3] h1 h2 h3 by simp
qed

text \<open>
  C6 (fails on the code). The claim: after every build \<open>tf_total\<close> is the sum, over the
  postings list, of the per-post file entries. When a post id comes twice, \<open>tf_total\<close> takes
  the frequency both times, while the id is in the postings list once and its file holds
  one frequency: here \<open>tf_total\<close> is 2 and the sum is 1. (For pairwise distinct ids the
  round trip holds: lemma \<open>round_trip_distinct_ids\<close>.)
\<close>

theorem round_trip_fails_on_repeated_id:
  "index_file (build_inverted_index [doc_cat, doc_cat] empty_store) =
     Some [(''cat'', \<lparr>df = 1, tf_total = 2, post_ids = [''1'']\<rparr>)] \<and>
   sum_list (map (\<lambda>pid. artifact_tf (build_inverted_index [doc_cat, doc_cat] empty_store) pid ''cat'')
     [''1'']) = 1"
  using build_twice by (simp add: artifact_tf_def)

text \<open>
  C7 (fails on the code). The claim: a document occurring twice gives every term the same
  \<open>df\<close>, \<open>tf_total\<close> and postings as the document occurring once. \<open>df\<close> and the postings
  list are the same; \<open>tf_total\<close> is added again, outside the test that guards the other two.
\<close>

theorem reprocessing_adds_tf_total_again:
  "index_file (build_inverted_index [doc_cat] empty_store) =
     Some [(''cat'', \<lparr>df = 1, tf_total = 1, post_ids = [''1'']\<rparr>)] \<and>
   index_file (build_inverted_index [doc_cat, doc_cat] empty_store) =
     Some [(''cat'', \<lparr>df = 1, tf_total = 2, post_ids = [''1'']\<rparr>)]"
  using build_twice by simp

text \<open>
  C8. A document of the corpus without tokens (no row of its id has a token) is in no
  postings list and has no metadata entry after the build, in the files and in the engine
  loaded from them, and \<open>show_post_info\<close> on its id prints "not found".
\<close>

theorem empty_document_excluded:
  assumes "p \<in> set posts"
    and "\<forall>p' \<in> set posts. post_id p' = post_id p \<longrightarrow> tokenize_text (clean_text_col p') = []"
    and "st = build_inverted_index posts st0"
    and "eng = snd (SearchEngine_init stem stop st)"
  shows "index_file st = Some (inverted_index eng) \<and>
         metadata_file st = Some (post_metadata eng) \<and>
         (\<forall>t e. map_of (inverted_index eng) t = Some e \<longrightarrow> post_id p \<notin> set (post_ids e)) \<and>
         map_of (post_metadata eng) (post_id p) = None \<and>
         show_post_info eng (post_id p) = [PostNotFound (post_id p)]"
proof -
  let ?T = "fold process_post posts ([], [], json_posts st0)"
  have ne: "posts \<noteq> []" using assms(1) by auto
  have eng: "eng = \<lparr>inverted_index = fst ?T, post_metadata = fst (snd ?T),
      stemmer = stem, stop_words = stop\<rparr>"
    using assms(3,4) by (simp add: init_built [OF ne])
  have st: "index_file st = Some (fst ?T)" "metadata_file st = Some (fst (snd ?T))"
    using assms(3) by (simp_all add: build_store [OF ne])
  have notin: "post_id p \<notin> token_ids posts"
    using assms(2) by (auto simp: token_ids_def)
  have within: "tables_within (token_ids posts) ?T"
    by (rule build_tables_within)
  have idx: "post_id p \<notin> set (post_ids e)" if "map_of (fst ?T) t = Some e" for t e
    using within that notin
    by (cases ?T) (auto simp: tables_within_def all_entries_def ids_within_def)
  have "post_id p \<notin> fst ` set (fst (snd ?T))"
    using within notin by (cases ?T) (auto simp: tables_within_def)
  then have meta: "map_of (fst (snd ?T)) (post_id p) = None"
    by (simp add: map_of_eq_None_iff)
  show ?thesis
    using eng st idx meta by (simp add: show_post_info_def)
qed

theorem empty_document_excluded_witness:
  "doc_empty \<in> set [doc_cat, doc_empty] \<and>
   tokenize_text (clean_text_col doc_empty) = [] \<and>
   post_id doc_cat \<noteq> post_id doc_empty \<and>
   index_file (build_inverted_index [doc_cat, doc_empty] empty_store) =
     Some [(''cat'', \<lparr>df = 1, tf_total = 1, post_ids = [''1'']\<rparr>)] \<and>
   show_post_info (snd (SearchEngine_init example_stem example_stop
       (build_inverted_index [doc_cat, doc_empty] empty_store))) ''4'' = [PostNotFound ''4'']"
proof -
  have h1: "doc_empty \<in> set [doc_cat, doc_empty]"
    by simp
  have tok: "tokenize_text (clean_text_col doc_empty) = []"
    by (simp add: doc_empty_def tokenize_text_def tokenize_def is_space_def)
  have ids: "post_id doc_cat \<noteq> post_id doc_empty"
    by (simp add: doc_cat_def doc_empty_def)
  have h2: "\<forall>p' \<in> set [doc_cat, doc_empty].
      post_id p' = post_id doc_empty \<longrightarrow> tokenize_text (clean_text_col p') = []"
    using tok ids by simp
  note r = empty_document_excluded [OF h1 h2 refl refl, of empty_store example_stem example_stop]
  have s: "show_post_info (snd (SearchEngine_init example_stem example_stop
       (build_inverted_index [doc_cat, doc_empty] empty_store))) ''4'' = [PostNotFound ''4'']"
    using r by (simp add: doc_empty_def)
  have i: "index_file (build_inverted_index [doc_cat, doc_empty] empty_store) =
     Some [(''cat'', \<lparr>df = 1, tf_total = 1, post_ids = [''1'']\<rparr>)]"
    by (simp add: build_with_empty)
  show ?thesis
    by (intro conjI h1 tok ids i s)
qed

text \<open>
  C9 (as stated it fails; the example). With neither table in the store, constructing the
  engine succeeds: it prints "File not found" twice and holds two empty tables. A search
  then answers "term not found" and \<open>show_post_info\<close> answers "not found", exactly as with
  empty tables loaded; nothing fails and there is no "not ready" condition.
\<close>

theorem unloaded_engine_counterexample:
  "SearchEngine_init example_stem example_stop empty_store =
     ([FileNotFound index_path, FileNotFound metadata_path],
      \<lparr>inverted_index = [], post_metadata = [], stemmer = example_stem,
       stop_words = example_stop\<rparr>) \<and>
   search (snd (SearchEngine_init example_stem example_stop empty_store)) empty_store ''cats'' =
     Inr ([SearchingFor ''cat'', TermNotFound ''cat''], []) \<and>
   search (snd (SearchEngine_init example_stem example_stop
        \<lparr>index_file = Some [], metadata_file = Some [], json_posts = Map.empty\<rparr>))
      \<lparr>index_file = Some [], metadata_file = Some [], json_posts = Map.empty\<rparr> ''cats'' =
     Inr ([SearchingFor ''cat'', TermNotFound ''cat''], []) \<and>
   show_post_info (snd (SearchEngine_init example_stem example_stop empty_store)) ''1'' =
     [PostNotFound ''1'']"
  by (simp add: SearchEngine_init_def load_json_def empty_store_def search_def query_cats
      show_post_info_def)

text \<open>
  C9 (amended). When a table is absent the constructor does not fail: it prints "File not
  found" for it and holds the empty table in its place. The engine is then the one loaded
  from the store with empty tables for the absent ones, and \<open>search\<close> and \<open>show_post_info\<close>
  answer as on that store; there is no "not ready" answer. With the index absent, every
  search returns the empty list, printing "no valid term" or "term not found". With the
  metadata absent, \<open>show_post_info\<close> prints "not found" for every id and \<open>search\<close> works
  with \<open>N = 0\<close>, so \<open>idf = ln 1 = 0\<close>: for a term of the loaded index (postings without
  repetition) it returns the first 20 matching documents in the order of the postings
  list, each with score 0.
\<close>

theorem init_absent_as_empty:
  "fst (SearchEngine_init stem stop st) =
     (if index_file st = None then [FileNotFound index_path] else []) @
     (if metadata_file st = None then [FileNotFound metadata_path] else []) \<and>
   snd (SearchEngine_init stem stop st) = snd (SearchEngine_init stem stop (absent_as_empty st)) \<and>
   search (snd (SearchEngine_init stem stop st)) st q =
     search (snd (SearchEngine_init stem stop (absent_as_empty st))) (absent_as_empty st) q \<and>
   show_post_info (snd (SearchEngine_init stem stop st)) pid =
     show_post_info (snd (SearchEngine_init stem stop (absent_as_empty st))) pid \<and>
   (index_file st = None \<longrightarrow>
      search (snd (SearchEngine_init stem stop st)) st q =
        (case preprocess_query stem stop q of
           [] \<Rightarrow> Inr ([NoValidTerm], [])
         | t # _ \<Rightarrow> Inr ([SearchingFor t, TermNotFound t], []))) \<and>
   (metadata_file st = None \<longrightarrow>
      show_post_info (snd (SearchEngine_init stem stop st)) pid = [PostNotFound pid] \<and>
      idf_of (length (post_metadata (snd (SearchEngine_init stem stop st)))) d = Inr 0 \<and>
      (\<forall>idx t rest e.
         index_file st = Some idx \<and> preprocess_query stem stop q = t # rest \<and>
         map_of idx t = Some e \<and> distinct (post_ids e) \<longrightarrow>
         search (snd (SearchEngine_init stem stop st)) st q =
           Inr ([SearchingFor t] @
                  map JsonMissing (filter (\<lambda>pid. json_posts st pid = None) (post_ids e)) @
                  [TopMatching] @
                  map (\<lambda>pid. ResultLine pid 0) (take 20 (matching st e)),
                take 20 (matching st e))))"
proof -
  let ?eng = "snd (SearchEngine_init stem stop st)"
  have msgs: "fst (SearchEngine_init stem stop st) =
     (if index_file st = None then [FileNotFound index_path] else []) @
     (if metadata_file st = None then [FileNotFound metadata_path] else [])"
    by (simp add: SearchEngine_init_def load_json_def split: option.splits)
  have eng: "?eng = snd (SearchEngine_init stem stop (absent_as_empty st))"
    by (simp add: SearchEngine_init_def load_json_def absent_as_empty_def split: option.splits)
  have files: "json_posts (absent_as_empty st) = json_posts st"
    by (simp add: absent_as_empty_def)
  have "score_post (absent_as_empty st) = score_post st"
    by (intro ext) (simp add: score_post_def files)
  then have same: "search eng (absent_as_empty st) q = search eng st q" for eng
    unfolding search_def by (simp only:)
  have no_index: "search ?eng st q =
        (case preprocess_query stem stop q of
           [] \<Rightarrow> Inr ([NoValidTerm], [])
         | t # _ \<Rightarrow> Inr ([SearchingFor t, TermNotFound t], []))" if "index_file st = None"
    using that
    by (simp add: search_def SearchEngine_init_def load_json_def split: option.splits list.splits)
  have no_meta_info: "show_post_info ?eng pid = [PostNotFound pid]" if "metadata_file st = None"
    using that
    by (simp add: show_post_info_def SearchEngine_init_def load_json_def split: option.splits)
  have no_meta_idf: "idf_of (length (post_metadata ?eng)) d = Inr 0" if "metadata_file st = None"
    using that
    by (simp add: idf_of_total SearchEngine_init_def load_json_def split: option.splits)
  have no_meta_search: "search ?eng st q =
           Inr ([SearchingFor t] @
                  map JsonMissing (filter (\<lambda>pid. json_posts st pid = None) (post_ids e)) @
                  [TopMatching] @
                  map (\<lambda>pid. ResultLine pid 0) (take 20 (matching st e)),
                take 20 (matching st e))"
    if none: "metadata_file st = None" and idx: "index_file st = Some idx"
      and q: "preprocess_query stem stop q = t # rest"
      and e: "map_of idx t = Some e" and d: "distinct (post_ids e)" for idx t rest e
  proof -
    let ?scores = "map (\<lambda>pid. (pid, 0 :: real)) (matching st e)"
    have fields: "inverted_index ?eng = idx" "post_metadata ?eng = []"
      "stemmer ?eng = stem" "stop_words ?eng = stop"
      using none idx by (simp_all add: SearchEngine_init_def load_json_def)
    have "search ?eng st q =
           Inr ([SearchingFor t] @
                  map JsonMissing (filter (\<lambda>pid. json_posts st pid = None) (post_ids e)) @
                  [TopMatching] @
                  map (\<lambda>(PID, score). ResultLine PID score) (take 20 (rank ?scores)),
                map fst (take 20 (rank ?scores)))"
    proof (rule search_ranked [where rest = rest and e = e])
      show "preprocess_query (stemmer ?eng) (stop_words ?eng) q = t # rest"
        using q fields by simp
      show "map_of (inverted_index ?eng) t = Some e"
        using e fields by simp
      show "distinct (post_ids e)" by (rule d)
      show "(if df e = 0 then 0 else ln (1 + real (length (post_metadata ?eng)) / real (df e))) =
          (if df e = 0 then 0 else ln (1 + real (length (post_metadata ?eng)) / real (df e)))"
        by (rule refl)
      show "?scores = map (\<lambda>pid. (pid, real (artifact_tf st pid t) *
          (if df e = 0 then 0 else ln (1 + real (length (post_metadata ?eng)) / real (df e)))))
          (matching st e)"
        using fields by simp
    qed
    moreover have "rank ?scores = ?scores"
      by (rule rank_all_equal [where c = 0]) auto
    ultimately show ?thesis
      by (simp add: take_map comp_def)
  qed
  have c3: "search ?eng st q =
     search (snd (SearchEngine_init stem stop (absent_as_empty st))) (absent_as_empty st) q"
    using same eng by simp
  have c4: "show_post_info ?eng pid =
     show_post_info (snd (SearchEngine_init stem stop (absent_as_empty st))) pid"
    using eng by simp
  have c5: "index_file st = None \<longrightarrow>
      search ?eng st q =
        (case preprocess_query stem stop q of
           [] \<Rightarrow> Inr ([NoValidTerm], [])
         | t # _ \<Rightarrow> Inr ([SearchingFor t, TermNotFound t], []))"
    using no_index by blast
  have c6: "metadata_file st = None \<longrightarrow>
      show_post_info ?eng pid = [PostNotFound pid] \<and>
      idf_of (length (post_metadata ?eng)) d = Inr 0 \<and>
      (\<forall>idx t rest e.
         index_file st = Some idx \<and> preprocess_query stem stop q = t # rest \<and>
         map_of idx t = Some e \<and> distinct (post_ids e) \<longrightarrow>
         search ?eng st q =
           Inr ([SearchingFor t] @
                  map JsonMissing (filter (\<lambda>pid. json_posts st pid = None) (post_ids e)) @
                  [TopMatching] @
                  map (\<lambda>pid. ResultLine pid 0) (take 20 (matching st e)),
                take 20 (matching st e)))"
    using no_meta_info no_meta_idf no_meta_search by blast
  show ?thesis
    by (intro conjI msgs eng c3 c4 c5 c6)
qed

theorem init_absent_as_empty_witness:
  "index_file empty_store = None \<and>
   fst (SearchEngine_init example_stem example_stop empty_store) =
     [FileNotFound index_path, FileNotFound metadata_path] \<and>
   search (snd (SearchEngine_init example_stem example_stop empty_store)) empty_store ''cats'' =
     Inr ([SearchingFor ''cat'', TermNotFound ''cat''], []) \<and>
   metadata_file store_A_no_metadata = None \<and>
   index_file store_A_no_metadata = Some index_A \<and>
   show_post_info (snd (SearchEngine_init example_stem example_stop store_A_no_metadata)) ''1'' =
     [PostNotFound ''1''] \<and>
   search (snd (SearchEngine_init example_stem example_stop store_A_no_metadata))
       store_A_no_metadata ''cats'' =
     Inr ([SearchingFor ''cat'', TopMatching, ResultLine ''1'' 0, ResultLine ''2'' 0],
          [''1'', ''2''])"
proof -
  let ?e = "\<lparr>df = 2, tf_total = 3, post_ids = [''1'', ''2'']\<rparr>"
  have a: "index_file empty_store = None"
    by (simp add: empty_store_def)
  note r = init_absent_as_empty [of example_stem example_stop empty_store "''cats''" "''1''" 1]
  have m: "fst (SearchEngine_init example_stem example_stop empty_store) =
     [FileNotFound index_path, FileNotFound metadata_path]"
    using r [THEN conjunct1] by (simp add: empty_store_def)
  have s: "search (snd (SearchEngine_init example_stem example_stop empty_store)) empty_store ''cats'' =
     Inr ([SearchingFor ''cat'', TermNotFound ''cat''], [])"
    using r [THEN conjunct2, THEN conjunct2, THEN conjunct2, THEN conjunct2, THEN conjunct1] a
    by (simp add: query_cats)
  have b: "metadata_file store_A_no_metadata = None"
    by (simp add: store_A_no_metadata_def)
  have c: "index_file store_A_no_metadata = Some index_A"
    by (simp add: store_A_no_metadata_def)
  note r2 = init_absent_as_empty [of example_stem example_stop store_A_no_metadata "''cats''" "''1''" 1,
      THEN conjunct2, THEN conjunct2, THEN conjunct2, THEN conjunct2, THEN conjunct2, THEN mp, OF b]
  have i: "show_post_info (snd (SearchEngine_init example_stem example_stop store_A_no_metadata)) ''1'' =
     [PostNotFound ''1'']"
    using r2 [THEN conjunct1] .
  have q: "index_file store_A_no_metadata = Some index_A \<and>
      preprocess_query example_stem example_stop ''cats'' = ''cat'' # [] \<and>
      map_of index_A ''cat'' = Some ?e \<and> distinct (post_ids ?e)"
    using c by (simp add: query_cats index_A_def)
  have mt: "matching store_A_no_metadata ?e = [''1'', ''2'']"
    by (simp add: matching_def store_A_no_metadata_def files_A_def)
  have s2: "search (snd (SearchEngine_init example_stem example_stop store_A_no_metadata))
       store_A_no_metadata ''cats'' =
     Inr ([SearchingFor ''cat'', TopMatching, ResultLine ''1'' 0, ResultLine ''2'' 0],
          [''1'', ''2''])"
    using r2 [THEN conjunct2, THEN conjunct2, THEN spec, THEN spec, THEN spec, THEN spec, THEN mp, OF q]
    unfolding mt by (simp add: store_A_no_metadata_def files_A_def)
  show ?thesis
    by (intro conjI a m s b c i s2)
qed

text \<open>
  C10. For every engine, store and query string, \<open>search\<close> raises no exception. If the
  query normalizes to no token it returns the empty list and prints "no valid term"; if
  its first token is not in the postings table it returns the empty list and prints
  "term not found"; the two outputs differ.
\<close>

theorem search_signals:
  "(\<exists>out ids. search eng st q = Inr (out, ids)) \<and>
   (preprocess_query (stemmer eng) (stop_words eng) q = [] \<longrightarrow>
      search eng st q = Inr ([NoValidTerm], [])) \<and>
   (\<forall>t rest. preprocess_query (stemmer eng) (stop_words eng) q = t # rest \<and>
        map_of (inverted_index eng) t = None \<longrightarrow>
      search eng st q = Inr ([SearchingFor t, TermNotFound t], []) \<and>
      [SearchingFor t, TermNotFound t] \<noteq> [NoValidTerm])"
  using search_returns [of eng st q] by (simp add: search_def)

theorem search_signals_witness:
  "preprocess_query (stemmer engine_A) (stop_words engine_A) ''?!'' = [] \<and>
   search engine_A store_A ''?!'' = Inr ([NoValidTerm], []) \<and>
   preprocess_query (stemmer engine_A) (stop_words engine_A) ''zebra'' = [''zebra''] \<and>
   map_of (inverted_index engine_A) ''zebra'' = None \<and>
   search engine_A store_A ''zebra'' = Inr ([SearchingFor ''zebra'', TermNotFound ''zebra''], [])"
proof -
  have h1: "preprocess_query (stemmer engine_A) (stop_words engine_A) ''?!'' = []"
    by (simp add: engine_A_def query_punctuation)
  have h2: "preprocess_query (stemmer engine_A) (stop_words engine_A) ''zebra'' = [''zebra'']"
    by (simp add: engine_A_def query_zebra)
  have h3: "map_of (inverted_index engine_A) ''zebra'' = None"
    by (simp add: engine_A_def index_A_def)
  have s1: "search engine_A store_A ''?!'' = Inr ([NoValidTerm], [])"
    using search_signals [of engine_A store_A "''?!''"] h1 by blast
  have s2: "search engine_A store_A ''zebra'' =
      Inr ([SearchingFor ''zebra'', TermNotFound ''zebra''], [])"
    using search_signals [of engine_A store_A "''zebra''"] h2 h3 by blast
  show ?thesis
    by (intro conjI h1 s1 h2 h3 s2)
qed

end
